theory Spec2Isabelle
  imports Complex_Main "HOL-Library.Multiset"
begin

section \<open>The correlation engine of api-server.ts\<close>

text \<open>
  The engine is the second half of \<^verbatim>\<open>src/services/api-server.ts\<close>: six passes over one
  list of events and a projection of their results to alert records.

  Conventions of the embedding.
  \<^item> A JavaScript \<^verbatim>\<open>number\<close> is the \<^typ>\<open>real\<close> that the double denotes, or an
    \<^typ>\<open>int\<close> where the code can only produce an integer (\<^verbatim>\<open>Date.getTime()\<close>,
    \<^verbatim>\<open>Math.round\<close>).
  \<^item> The arithmetic of the passes that work on time (temporal, thematic, cascade,
    pattern) is binary64: every \<^verbatim>\<open>+\<close>, \<^verbatim>\<open>-\<close>, \<^verbatim>\<open>*\<close> and \<^verbatim>\<open>/\<close> rounds its exact result
    to the nearest double, a tie to the even significand (\<open>round64\<close>). The exponent
    range is not modelled: the numbers that these passes compute from the times of valid
    dates are zero or normal doubles. The product of an array length and a small constant
    is exact (an array has fewer than \<open>2^32\<close> elements) and written without rounding.
  \<^item> \<^verbatim>\<open>NaN\<close> and the infinities are not values of the model; the one division by zero
    that can happen is written out.
  \<^item> The distance of \<open>haversineDistance\<close> is the formula over the reals:
    \<^verbatim>\<open>Math.sin\<close>, \<^verbatim>\<open>Math.cos\<close> and \<^verbatim>\<open>Math.atan2\<close> are approximations that the language
    leaves to the implementation.
  \<^item> A \<^verbatim>\<open>Date\<close> is its \<^verbatim>\<open>getTime()\<close>, the milliseconds since the epoch.
  \<^item> An optional field is an \<^typ>\<open>'a option\<close>.
  \<^item> The field \<^verbatim>\<open>timestamp: new Date()\<close> of a result is the wall clock at the moment of
    the call; it is left out of the records.
  \<^item> A field whose name is taken in HOL carries a suffix: \<^verbatim>\<open>id\<close> is \<open>id_ev\<close> or
    \<open>id_res\<close>, \<^verbatim>\<open>type\<close> is \<open>type_res\<close>, \<^verbatim>\<open>keywords\<close> is \<open>keywords_ev\<close>.
\<close>

subsection \<open>Data model\<close>

datatype corr_type = Temporal | Spatial | Thematic | Cascade

datatype significance_level = High | Medium | Low

record CorrelationResult =
  id_res :: string
  type_res :: corr_type
  score :: int
  events :: "string list"
  description :: string
  significance :: significance_level

record CorrelationEvent =
  id_ev :: string
  title :: string
  date :: int
  lat :: "real option"
  lon :: "real option"
  region :: string
  keywords_ev :: "string list"
  source :: string
  category :: string

record TemporalPattern =
  pattern :: string
  frequency :: real
  confidence :: int
  recentHits :: "int list"

text \<open>The nested object \<^verbatim>\<open>dateRange: { start, end }\<close> is the two fields \<open>dateRange_start\<close>
  and \<open>dateRange_end\<close>.\<close>

record GeographicCluster =
  centerLat :: real
  centerLon :: real
  radiusKm :: real
  eventCount :: nat
  categories :: "string list"
  dateRange_start :: int
  dateRange_end :: int

definition CORRELATION_WINDOW :: real where
  "CORRELATION_WINDOW = 72"

definition SPATIAL_THRESHOLD_KM :: real where
  "SPATIAL_THRESHOLD_KM = 500"

subsection \<open>JavaScript primitives\<close>

text \<open>\<^verbatim>\<open>Math.round\<close> rounds to the nearest integer, a tie towards plus infinity.\<close>

definition js_round :: "real \<Rightarrow> int" where
  "js_round x = \<lfloor>x + 1 / 2\<rfloor>"

text \<open>
  Rounding to binary64. For a positive \<open>x\<close>, \<open>expoPos x\<close> is the exponent \<open>e\<close> with
  \<open>2^e \<le> x < 2^(e+1)\<close>; a double of that binade is a multiple of \<open>2^(e-52)\<close>, the unit in
  the last place; \<open>round64\<close> takes the nearest multiple, and of two nearest ones the even
  multiple.
\<close>

function expoPos :: "real \<Rightarrow> int" where
  "expoPos x =
     (if 2 \<le> x then expoPos (x / 2) + 1
      else if 0 < x \<and> x < 1 then expoPos (x * 2) - 1
      else 0)"
  by auto
termination
proof (relation "measure (\<lambda>x. if 1 \<le> x then nat \<lfloor>x\<rfloor> else nat \<lceil>1 / x\<rceil> + 1)")
  show "wf (measure (\<lambda>x::real. if 1 \<le> x then nat \<lfloor>x\<rfloor> else nat \<lceil>1 / x\<rceil> + 1))" by simp
next
  fix x :: real assume x: "2 \<le> x"
  have "\<lfloor>x / 2\<rfloor> < \<lfloor>x\<rfloor>"
  proof -
    have "x / 2 \<le> x - 1" using x by simp
    then have "\<lfloor>x / 2\<rfloor> \<le> \<lfloor>x - 1\<rfloor>" by (rule floor_mono)
    then show ?thesis by simp
  qed
  moreover have "0 < \<lfloor>x\<rfloor>" using x by simp
  ultimately show "(x / 2, x) \<in> measure (\<lambda>x. if 1 \<le> x then nat \<lfloor>x\<rfloor> else nat \<lceil>1 / x\<rceil> + 1)"
    using x by simp
next
  fix x :: real assume "\<not> 2 \<le> x" and x: "0 < x \<and> x < 1"
  show "(x * 2, x) \<in> measure (\<lambda>x. if 1 \<le> x then nat \<lfloor>x\<rfloor> else nat \<lceil>1 / x\<rceil> + 1)"
  proof (cases "1 \<le> x * 2")
    case True
    then have "\<lfloor>x * 2\<rfloor> = 1" using x by (simp add: floor_eq_iff)
    moreover have "1 < 1 / x" using x by simp
    then have "2 \<le> \<lceil>1 / x\<rceil>" by (simp add: le_ceiling_iff)
    ultimately show ?thesis using True x by simp
  next
    case False
    define y where "y = 1 / (x * 2)"
    have y: "1 < y" using False x by (simp add: y_def)
    have "1 / x = 2 * y" using x by (simp add: y_def)
    moreover have "\<lceil>y\<rceil> < \<lceil>2 * y\<rceil>"
    proof -
      have "y + 1 \<le> 2 * y" using y by simp
      then have "\<lceil>y + 1\<rceil> \<le> \<lceil>2 * y\<rceil>" by (rule ceiling_mono)
      then show ?thesis by simp
    qed
    moreover have "0 < \<lceil>y\<rceil>" using y by (simp add: less_ceiling_iff)
    ultimately show ?thesis using False x by (simp add: y_def)
  qed
qed

declare expoPos.simps [simp del]

definition expo :: "real \<Rightarrow> int" where
  "expo x = expoPos \<bar>x\<bar>"

definition ulp :: "real \<Rightarrow> real" where
  "ulp x = 2 powi (expo x - 52)"

definition roundEven :: "real \<Rightarrow> int" where
  "roundEven m =
     (let f = \<lfloor>m\<rfloor> in
      if m - of_int f < 1 / 2 then f
      else if 1 / 2 < m - of_int f then f + 1
      else if even f then f else f + 1)"

definition round64 :: "real \<Rightarrow> real" where
  "round64 x = (if x = 0 then 0 else of_int (roundEven (x / ulp x)) * ulp x)"

text \<open>The four operations on doubles. No divisor of \<open>fdiv\<close> in the passes is zero.\<close>

definition fadd :: "real \<Rightarrow> real \<Rightarrow> real" where
  "fadd a b = round64 (a + b)"

definition fsub :: "real \<Rightarrow> real \<Rightarrow> real" where
  "fsub a b = round64 (a - b)"

definition fmul :: "real \<Rightarrow> real \<Rightarrow> real" where
  "fmul a b = round64 (a * b)"

definition fdiv :: "real \<Rightarrow> real \<Rightarrow> real" where
  "fdiv a b = round64 (a / b)"

text \<open>Milliseconds to hours: the division by \<^verbatim>\<open>(1000 * 60 * 60)\<close>.\<close>

definition msToHours :: "real \<Rightarrow> real" where
  "msToHours ms = fdiv ms (1000 * 60 * 60)"

text \<open>The decimal rendering of an integer inside a template literal.\<close>

fun showNat :: "nat \<Rightarrow> string" where
  "showNat n =
     (if n < 10 then [''0123456789'' ! n]
      else showNat (n div 10) @ [''0123456789'' ! (n mod 10)])"

declare showNat.simps [simp del]

definition showInt :: "int \<Rightarrow> string" where
  "showInt i = (if i < 0 then CHR ''-'' # showNat (nat (- i)) else showNat (nat i))"

text \<open>\<^verbatim>\<open>Array.prototype.join\<close>.\<close>

fun join :: "string \<Rightarrow> string list \<Rightarrow> string" where
  "join sep [] = []"
| "join sep [x] = x"
| "join sep (x # y # ys) = x @ sep @ join sep (y # ys)"

text \<open>A condition \<^verbatim>\<open>e.lat && ...\<close> on an optional number: \<^verbatim>\<open>undefined\<close> and \<^verbatim>\<open>0\<close> are
  both falsy.\<close>

fun truthy :: "real option \<Rightarrow> bool" where
  "truthy None = False"
| "truthy (Some x) = (x \<noteq> 0)"

text \<open>The loop \<^verbatim>\<open>for (i = 0; i < n; i++) for (j = i + 1; j < n; j++)\<close>; \<open>body\<close> returns what
  the iteration pushes onto \<^verbatim>\<open>results\<close>.\<close>

fun forPairs :: "('a \<Rightarrow> 'a \<Rightarrow> 'b list) \<Rightarrow> 'a list \<Rightarrow> 'b list" where
  "forPairs body [] = []"
| "forPairs body (e1 # rest) = concat (map (body e1) rest) @ forPairs body rest"

text \<open>\<^verbatim>\<open>results.sort((a, b) => b.score - a.score)\<close>: a stable sort, the greatest score
  first.\<close>

definition sortByScore :: "CorrelationResult list \<Rightarrow> CorrelationResult list" where
  "sortByScore rs = sort_key (\<lambda>r. - score r) rs"

text \<open>\<^verbatim>\<open>e1.keywords.filter(k => e2.keywords.includes(k))\<close>.\<close>

definition sharedKeywords :: "CorrelationEvent \<Rightarrow> CorrelationEvent \<Rightarrow> string list" where
  "sharedKeywords e1 e2 = filter (\<lambda>k. k \<in> set (keywords_ev e2)) (keywords_ev e1)"

subsection \<open>findTemporalCorrelations\<close>

definition temporalPair :: "CorrelationEvent \<Rightarrow> CorrelationEvent \<Rightarrow> CorrelationResult list" where
  "temporalPair e1 e2 =
     (let timeDiff = msToHours \<bar>fsub (real_of_int (date e1)) (real_of_int (date e2))\<bar> in
      if timeDiff \<le> CORRELATION_WINDOW then
        (let shared = sharedKeywords e1 e2 in
         if length shared \<ge> 2 then
           (let sc = min 100 (js_round
                      (fadd (fmul (fsub 1 (fdiv timeDiff CORRELATION_WINDOW)) 100)
                            (real (length shared) * 10))) in
            [\<lparr> id_res = ''temp_'' @ id_ev e1 @ ''_'' @ id_ev e2,
               type_res = Temporal,
               score = sc,
               events = [id_ev e1, id_ev e2],
               description = title e1 @ '' and '' @ title e2 @ '' occurred within ''
                  @ showInt (js_round timeDiff) @ '' hours, sharing: '' @ join '', '' shared,
               significance = (if sc > 70 then High else if sc > 50 then Medium else Low) \<rparr>])
         else [])
      else [])"

definition findTemporalCorrelations :: "CorrelationEvent list \<Rightarrow> CorrelationResult list" where
  "findTemporalCorrelations es = sortByScore (forPairs temporalPair es)"

subsection \<open>haversineDistance and findSpatialCorrelations\<close>

definition toRad :: "real \<Rightarrow> real" where
  "toRad deg = deg * (pi / 180)"

text \<open>\<^verbatim>\<open>Math.atan2(y, x)\<close> on the reals.\<close>

definition atan2 :: "real \<Rightarrow> real \<Rightarrow> real" where
  "atan2 y x =
     (if x > 0 then arctan (y / x)
      else if x < 0 then (if y \<ge> 0 then arctan (y / x) + pi else arctan (y / x) - pi)
      else if y > 0 then pi / 2
      else if y < 0 then - (pi / 2)
      else 0)"

definition haversineDistance :: "real \<Rightarrow> real \<Rightarrow> real \<Rightarrow> real \<Rightarrow> real" where
  "haversineDistance lat1 lon1 lat2 lon2 =
     (let R = 6371;
          dLat = toRad (lat2 - lat1);
          dLon = toRad (lon2 - lon1);
          a = sin (dLat / 2) * sin (dLat / 2)
              + cos (toRad lat1) * cos (toRad lat2) * sin (dLon / 2) * sin (dLon / 2);
          c = 2 * atan2 (sqrt a) (sqrt (1 - a))
      in R * c)"

definition spatialPair :: "CorrelationEvent \<Rightarrow> CorrelationEvent \<Rightarrow> CorrelationResult list" where
  "spatialPair e1 e2 =
     (if truthy (lat e1) \<and> truthy (lon e1) \<and> truthy (lat e2) \<and> truthy (lon e2) then
        (let distance = haversineDistance (the (lat e1)) (the (lon e1))
                                          (the (lat e2)) (the (lon e2)) in
         if distance \<le> SPATIAL_THRESHOLD_KM then
           (let sc = min 100 (js_round ((1 - distance / SPATIAL_THRESHOLD_KM) * 100)) in
            [\<lparr> id_res = ''spat_'' @ id_ev e1 @ ''_'' @ id_ev e2,
               type_res = Spatial,
               score = sc,
               events = [id_ev e1, id_ev e2],
               description = title e1 @ '' and '' @ title e2 @ '' occurred within ''
                  @ showInt (js_round distance) @ ''km of each other'',
               significance = (if distance < 100 then High
                               else if distance < 250 then Medium else Low) \<rparr>])
         else [])
      else [])"

definition findSpatialCorrelations :: "CorrelationEvent list \<Rightarrow> CorrelationResult list" where
  "findSpatialCorrelations es = sortByScore (forPairs spatialPair es)"

subsection \<open>findThematicCorrelations\<close>

text \<open>
  \<^verbatim>\<open>keywordToEvents\<close> is an object literal \<^verbatim>\<open>{}\<close> used as a dictionary. Its own
  properties are an association list in creation order. The object inherits from
  \<^verbatim>\<open>Object.prototype\<close>: for a keyword that names an inherited property,
  \<^verbatim>\<open>!keywordToEvents[keyword]\<close> is false (the inherited value is a function or an object),
  no array is stored, and \<^verbatim>\<open>keywordToEvents[keyword].push\<close> is \<^verbatim>\<open>undefined\<close>: the call
  throws a \<^verbatim>\<open>TypeError\<close>.
\<close>

datatype js_error = TypeError

definition objectPrototypeKeys :: "string list" where
  "objectPrototypeKeys =
     [''constructor'', ''__defineGetter__'', ''__defineSetter__'', ''hasOwnProperty'',
      ''__lookupGetter__'', ''__lookupSetter__'', ''isPrototypeOf'', ''propertyIsEnumerable'',
      ''toString'', ''valueOf'', ''__proto__'', ''toLocaleString'']"

text \<open>\<^verbatim>\<open>if (!obj[key]) obj[key] = []; obj[key].push(v)\<close> on the own properties: an array
  (even an empty one) is truthy, a new key goes last.\<close>

fun pushTo :: "string \<Rightarrow> 'v \<Rightarrow> (string \<times> 'v list) list \<Rightarrow> (string \<times> 'v list) list" where
  "pushTo key v [] = [(key, [v])]"
| "pushTo key v ((k, vs) # rest) =
     (if key = k then (k, vs @ [v]) # rest else (k, vs) # pushTo key v rest)"

fun addKeywords ::
  "string \<Rightarrow> string list \<Rightarrow> (string \<times> string list) list \<Rightarrow> js_error + (string \<times> string list) list"
where
  "addKeywords eid [] m = Inr m"
| "addKeywords eid (keyword # ks) m =
     (if keyword \<in> set objectPrototypeKeys then Inl TypeError
      else addKeywords eid ks (pushTo keyword eid m))"

fun groupByKeyword ::
  "CorrelationEvent list \<Rightarrow> (string \<times> string list) list \<Rightarrow> js_error + (string \<times> string list) list"
where
  "groupByKeyword [] m = Inr m"
| "groupByKeyword (event # rest) m =
     (case addKeywords (id_ev event) (keywords_ev event) m of
        Inl err \<Rightarrow> Inl err
      | Inr m' \<Rightarrow> groupByKeyword rest m')"

text \<open>
  \<^verbatim>\<open>Object.entries\<close> lists the own properties whose key is an array index (the canonical
  decimal form of an integer below \<open>2^32 - 1\<close>) first, in ascending numeric order, and
  then the other keys in creation order.
\<close>

definition isDigit :: "char \<Rightarrow> bool" where
  "isDigit c = ((48::nat) \<le> of_char c \<and> (of_char c :: nat) \<le> 57)"

fun digitsToNat :: "nat \<Rightarrow> string \<Rightarrow> nat" where
  "digitsToNat acc [] = acc"
| "digitsToNat acc (c # cs) = digitsToNat (10 * acc + ((of_char c :: nat) - 48)) cs"

definition arrayIndex :: "string \<Rightarrow> nat option" where
  "arrayIndex key =
     (if key \<noteq> [] \<and> list_all isDigit key \<and> (key = ''0'' \<or> hd key \<noteq> CHR ''0'')
         \<and> digitsToNat 0 key < 4294967295
      then Some (digitsToNat 0 key) else None)"

definition objectEntries :: "(string \<times> 'v) list \<Rightarrow> (string \<times> 'v) list" where
  "objectEntries m =
     sort_key (\<lambda>(k, v). the (arrayIndex k)) (filter (\<lambda>(k, v). arrayIndex k \<noteq> None) m)
     @ filter (\<lambda>(k, v). arrayIndex k = None) m"

text \<open>\<^verbatim>\<open>Math.max(...xs)\<close> and \<^verbatim>\<open>Math.min(...xs)\<close> of a non-empty array (the arrays
  below hold at least the events that gave the keyword its ids).\<close>

fun maxOf :: "int list \<Rightarrow> int" where
  "maxOf [] = 0"
| "maxOf (x # xs) = fold max xs x"

fun minOf :: "int list \<Rightarrow> int" where
  "minOf [] = 0"
| "minOf (x # xs) = fold min xs x"

definition thematicEntry ::
  "CorrelationEvent list \<Rightarrow> string \<times> string list \<Rightarrow> CorrelationResult list" where
  "thematicEntry es entry =
     (case entry of (keyword, eventIds) \<Rightarrow>
        if length eventIds \<ge> 3 then
          (let eventsData = filter (\<lambda>e. id_ev e \<in> set eventIds) es;
               dateRange = fsub (real_of_int (maxOf (map date eventsData)))
                                (real_of_int (minOf (map date eventsData)));
               daysRange = fdiv dateRange (1000 * 60 * 60 * 24)
           in [\<lparr> id_res = ''theme_'' @ keyword,
                  type_res = Thematic,
                  score = min 100 (js_round (real (length eventIds) * 15)),
                  events = eventIds,
                  description = showNat (length eventIds) @ '' events share '' @ [CHR 0x22]
                     @ keyword @ [CHR 0x22] @ '' theme over '' @ showInt (js_round daysRange)
                     @ '' days'',
                  significance = (if length eventIds \<ge> 5 then High
                                  else if length eventIds \<ge> 3 then Medium else Low) \<rparr>])
        else [])"

definition findThematicCorrelations ::
  "CorrelationEvent list \<Rightarrow> js_error + CorrelationResult list" where
  "findThematicCorrelations es =
     (case groupByKeyword es [] of
        Inl err \<Rightarrow> Inl err
      | Inr keywordToEvents \<Rightarrow>
          Inr (sortByScore (concat (map (thematicEntry es) (objectEntries keywordToEvents)))))"

subsection \<open>detectCascades\<close>

text \<open>\<^verbatim>\<open>[...events].sort((a, b) => a.date.getTime() - b.date.getTime())\<close>: a stable sort,
  the earliest first.\<close>

definition sortByDate :: "CorrelationEvent list \<Rightarrow> CorrelationEvent list" where
  "sortByDate es = sort_key date es"

text \<open>The arrow of the description is U+2192, here its three UTF-8 bytes.\<close>

definition cascadePair :: "CorrelationEvent \<Rightarrow> CorrelationEvent \<Rightarrow> CorrelationResult list" where
  "cascadePair e1 e2 =
     (let hoursDiff = msToHours (fsub (real_of_int (date e2)) (real_of_int (date e1))) in
      if hoursDiff > 6 \<and> hoursDiff < 48 then
        (let sameRegion = (region e1 = region e2);
             shared = sharedKeywords e1 e2 in
         if sameRegion \<or> length shared \<ge> 2 then
           (let sc = min 100 (js_round
                      (fadd (fmul (fsub 1 (fdiv hoursDiff 48)) 100)
                            (if sameRegion then 20 else real (length shared) * 10))) in
            [\<lparr> id_res = ''cascade_'' @ id_ev e1 @ ''_'' @ id_ev e2,
               type_res = Cascade,
               score = sc,
               events = [id_ev e1, id_ev e2],
               description = ''Possible cascade: '' @ title e1
                  @ [CHR '' '', CHR 0xE2, CHR 0x86, CHR 0x92, CHR '' ''] @ title e2
                  @ '' ('' @ showInt (js_round hoursDiff) @ ''h later)''
                  @ (if sameRegion then '' [same region]'' else []),
               significance = (if hoursDiff < 12 then High else Medium) \<rparr>])
         else [])
      else [])"

definition detectCascades :: "CorrelationEvent list \<Rightarrow> CorrelationResult list" where
  "detectCascades es = sortByScore (forPairs cascadePair (sortByDate es))"

subsection \<open>findTemporalPatterns\<close>

text \<open>The key of a group: \<^verbatim>\<open>`${event.region}:${event.keywords.slice(0, 2).join(',')}`\<close>.\<close>

definition patternKey :: "CorrelationEvent \<Rightarrow> string" where
  "patternKey event = region event @ '':'' @ join '','' (take 2 (keywords_ev event))"

text \<open>
  \<^verbatim>\<open>groups\<close> is an object literal too. Every key holds a colon, which no property of
  \<^verbatim>\<open>Object.prototype\<close> and no array index does, so \<^verbatim>\<open>!groups[key]\<close> only asks whether the
  key is an own property.
\<close>

fun groupDates ::
  "CorrelationEvent list \<Rightarrow> (string \<times> int list) list \<Rightarrow> (string \<times> int list) list" where
  "groupDates [] groups = groups"
| "groupDates (event # rest) groups =
     groupDates rest (pushTo (patternKey event) (date event) groups)"

text \<open>\<^verbatim>\<open>dates[i].getTime() - dates[i-1].getTime()\<close> for \<open>i = 1, ..., length - 1\<close>.\<close>

fun intervals :: "int list \<Rightarrow> real list" where
  "intervals (a # b # rest) = fsub (real_of_int b) (real_of_int a) # intervals (b # rest)"
| "intervals _ = []"

text \<open>
  \<^verbatim>\<open>Math.abs(interval - avgIntervalHours) / avgIntervalHours > 0.2\<close>, where \<^verbatim>\<open>0.2\<close> is the
  double nearest to one fifth. When the average is zero the quotient is \<^verbatim>\<open>NaN\<close> for a
  zero numerator, and the comparison is false, and it is \<^verbatim>\<open>Infinity\<close> otherwise, and the
  comparison is true.
\<close>

definition deviates :: "real \<Rightarrow> real \<Rightarrow> bool" where
  "deviates interval avgIntervalHours =
     (if avgIntervalHours = 0 then \<bar>fsub interval avgIntervalHours\<bar> \<noteq> 0
      else fdiv \<bar>fsub interval avgIntervalHours\<bar> avgIntervalHours > round64 (2 / 10))"

text \<open>The first loop adds the intervals up one by one, the second loop tests them.\<close>

definition analyzeGroup :: "int list \<Rightarrow> TemporalPattern list" where
  "analyzeGroup dates =
     (if length dates \<ge> 3 then
        (let totalInterval = fold (\<lambda>iv total. fadd total iv) (intervals dates) 0;
             avgIntervalMs = fdiv totalInterval (real (length dates - 1));
             avgIntervalHours = msToHours avgIntervalMs;
             consistent = list_all (\<lambda>iv. \<not> deviates (msToHours iv) avgIntervalHours)
                                   (intervals dates)
         in if consistent \<and> avgIntervalHours < 168 then
              [\<lparr> pattern = ''recurring every '' @ showInt (js_round avgIntervalHours) @ '' hours'',
                 frequency = avgIntervalHours,
                 confidence = min 100 (js_round (real (length dates) * 20)),
                 recentHits = drop (length dates - 5) dates \<rparr>]
            else [])
      else [])"

definition findTemporalPatterns :: "CorrelationEvent list \<Rightarrow> TemporalPattern list" where
  "findTemporalPatterns es =
     sort_key (\<lambda>p. - confidence p)
       (concat (map (\<lambda>(key, dates). analyzeGroup dates)
                    (objectEntries (groupDates (sortByDate es) []))))"

subsection \<open>findGeographicClusters\<close>

text \<open>The body of the inner loop over \<^verbatim>\<open>other\<close>; the state is the cluster under
  construction and the set \<^verbatim>\<open>used\<close>.\<close>

definition absorb ::
  "CorrelationEvent \<Rightarrow> CorrelationEvent \<Rightarrow> GeographicCluster \<times> string set
     \<Rightarrow> GeographicCluster \<times> string set" where
  "absorb event other st =
     (case st of (cluster, used) \<Rightarrow>
        if id_ev event = id_ev other \<or> \<not> truthy (lat other) \<or> \<not> truthy (lon other) then st
        else
          (let distance = haversineDistance (the (lat event)) (the (lon event))
                                            (the (lat other)) (the (lon other)) in
           if distance \<le> 100 then
             (cluster\<lparr> eventCount := eventCount cluster + 1,
                       radiusKm := max (radiusKm cluster) distance,
                       categories := (if category other \<in> set (categories cluster)
                                      then categories cluster
                                      else categories cluster @ [category other]),
                       dateRange_start := (if date other < dateRange_start cluster
                                           then date other else dateRange_start cluster),
                       dateRange_end := (if date other > dateRange_end cluster
                                         then date other else dateRange_end cluster) \<rparr>,
              insert (id_ev other) used)
           else st))"

definition seedCluster :: "CorrelationEvent \<Rightarrow> GeographicCluster" where
  "seedCluster event =
     \<lparr> centerLat = the (lat event),
       centerLon = the (lon event),
       radiusKm = 50,
       eventCount = 1,
       categories = [category event],
       dateRange_start = date event,
       dateRange_end = date event \<rparr>"

text \<open>The outer loop: \<open>all\<close> is the whole input, the second argument what is left of it.\<close>

fun clusterLoop ::
  "CorrelationEvent list \<Rightarrow> CorrelationEvent list \<Rightarrow> string set \<Rightarrow> GeographicCluster list" where
  "clusterLoop all [] used = []"
| "clusterLoop all (event # rest) used =
     (if \<not> truthy (lat event) \<or> \<not> truthy (lon event) \<or> id_ev event \<in> used
      then clusterLoop all rest used
      else
        (case fold (absorb event) all (seedCluster event, used) of (cluster, used') \<Rightarrow>
           (if eventCount cluster \<ge> 2 then [cluster] else []) @ clusterLoop all rest used'))"

definition findGeographicClusters :: "CorrelationEvent list \<Rightarrow> GeographicCluster list" where
  "findGeographicClusters es = sort_key (\<lambda>c. - int (eventCount c)) (clusterLoop es es {})"

subsection \<open>runCorrelationEngine and correlationsToThreatSignals\<close>

record EngineResults =
  temporal :: "CorrelationResult list"
  spatial :: "CorrelationResult list"
  thematic :: "CorrelationResult list"
  cascades :: "CorrelationResult list"
  patterns :: "TemporalPattern list"
  clusters :: "GeographicCluster list"

text \<open>The promise of the \<^verbatim>\<open>async\<close> function is rejected when the thematic pass throws.\<close>

definition runCorrelationEngine :: "CorrelationEvent list \<Rightarrow> js_error + EngineResults" where
  "runCorrelationEngine es =
     (case findThematicCorrelations es of
        Inl err \<Rightarrow> Inl err
      | Inr th \<Rightarrow>
          Inr \<lparr> temporal = findTemporalCorrelations es,
                spatial = findSpatialCorrelations es,
                thematic = th,
                cascades = detectCascades es,
                patterns = findTemporalPatterns es,
                clusters = findGeographicClusters es \<rparr>)"

record ThreatSignal =
  type_sig :: string
  title_sig :: string
  description_sig :: string
  severity :: string
  score_sig :: int
  events_sig :: "string list"

fun typeName :: "corr_type \<Rightarrow> string" where
  "typeName Temporal = ''temporal''"
| "typeName Spatial = ''spatial''"
| "typeName Thematic = ''thematic''"
| "typeName Cascade = ''cascade''"

text \<open>\<^verbatim>\<open>toUpperCase\<close> on the four type names, which are lower-case ASCII letters.\<close>

definition toUpperCase :: "string \<Rightarrow> string" where
  "toUpperCase s =
     map (\<lambda>c. if (97::nat) \<le> of_char c \<and> (of_char c :: nat) \<le> 122
               then char_of ((of_char c :: nat) - 32) else c) s"

definition toSignal :: "CorrelationResult \<Rightarrow> ThreatSignal" where
  "toSignal corr =
     \<lparr> type_sig = ''correlation_'' @ typeName (type_res corr),
       title_sig = toUpperCase (typeName (type_res corr)) @ '' Correlation Detected'',
       description_sig = description corr,
       severity = (if significance corr = High then ''medium'' else ''low''),
       score_sig = score corr,
       events_sig = events corr \<rparr>"

definition correlationsToThreatSignals :: "EngineResults \<Rightarrow> ThreatSignal list" where
  "correlationsToThreatSignals results =
     (let all = filter (\<lambda>r. significance r = High) (temporal results)
                @ filter (\<lambda>r. significance r = High) (spatial results)
                @ filter (\<lambda>r. significance r = High) (cascades results)
      in map toSignal (take 5 all))"

subsection \<open>Notions of the specification\<close>

text \<open>The clamp of the specification, \<open>clamp0_100\<close>: the code only takes
  \<^verbatim>\<open>Math.min(100, ...)\<close>.\<close>

definition clamp0_100 :: "int \<Rightarrow> int" where
  "clamp0_100 x = max 0 (min 100 x)"

text \<open>The array stored under a key of a dictionary object, empty when the key is absent.\<close>

definition lookupList :: "(string \<times> 'v list) list \<Rightarrow> string \<Rightarrow> 'v list" where
  "lookupList g k = (case map_of g k of None \<Rightarrow> [] | Some vs \<Rightarrow> vs)"

text \<open>The distance from one event to another, both with coordinates; the events that
  a seed absorbs, which are those that pass the tests of the inner loop of
  \<^verbatim>\<open>findGeographicClusters\<close>; one step of that loop on the cluster; and the cluster that
  the inner loop builds around a seed.\<close>

definition distanceKm :: "CorrelationEvent \<Rightarrow> CorrelationEvent \<Rightarrow> real" where
  "distanceKm e1 e2 =
     haversineDistance (the (lat e1)) (the (lon e1)) (the (lat e2)) (the (lon e2))"

definition absorbs :: "CorrelationEvent \<Rightarrow> CorrelationEvent \<Rightarrow> bool" where
  "absorbs seed other =
     (id_ev other \<noteq> id_ev seed \<and> truthy (lat other) \<and> truthy (lon other)
      \<and> distanceKm seed other \<le> 100)"

definition members :: "CorrelationEvent \<Rightarrow> CorrelationEvent list \<Rightarrow> CorrelationEvent list" where
  "members seed es = filter (absorbs seed) es"

definition clusterOf :: "CorrelationEvent \<Rightarrow> CorrelationEvent list \<Rightarrow> GeographicCluster" where
  "clusterOf seed es = fst (fold (absorb seed) es (seedCluster seed, {}))"

definition absorbed :: "GeographicCluster \<Rightarrow> CorrelationEvent \<Rightarrow> CorrelationEvent \<Rightarrow> GeographicCluster" where
  "absorbed c seed other =
     c\<lparr> eventCount := eventCount c + 1,
        radiusKm := max (radiusKm c) (distanceKm seed other),
        categories := (if category other \<in> set (categories c) then categories c
                       else categories c @ [category other]),
        dateRange_start := (if date other < dateRange_start c
                            then date other else dateRange_start c),
        dateRange_end := (if date other > dateRange_end c
                          then date other else dateRange_end c) \<rparr>"

subsection \<open>Example inputs\<close>

text \<open>An event with the fields that the passes read; the title is the id.\<close>

definition mkEvent ::
  "string \<Rightarrow> int \<Rightarrow> real option \<Rightarrow> real option \<Rightarrow> string \<Rightarrow> string list \<Rightarrow> CorrelationEvent" where
  "mkEvent i d la lo r ks =
     \<lparr> id_ev = i, title = i, date = d, lat = la, lon = lo, region = r, keywords_ev = ks,
       source = ''feed'', category = ''news'' \<rparr>"

definition hourMs :: int where
  "hourMs = 3600000"


text \<open>Two events on the equator, at the same place.\<close>

definition zeroLatA :: CorrelationEvent where
  "zeroLatA = mkEvent ''a'' 0 (Some 0) (Some 10) ''X'' []"

definition zeroLatB :: CorrelationEvent where
  "zeroLatB = mkEvent ''b'' hourMs (Some 0) (Some 10) ''X'' []"

text \<open>Two events one hour apart with two keywords in common.\<close>

definition twin1 :: CorrelationEvent where
  "twin1 = mkEvent ''e1'' 0 None None ''X'' [''a'', ''b'']"

definition twin2 :: CorrelationEvent where
  "twin2 = mkEvent ''e2'' hourMs None None ''Y'' [''a'', ''b'']"

definition twinEvents :: "CorrelationEvent list" where
  "twinEvents = [twin1, twin2]"

text \<open>Three events at one place, 24 hours apart.\<close>

definition daily1 :: CorrelationEvent where
  "daily1 = mkEvent ''d1'' 0 (Some 48) (Some 2) ''X'' [''a'', ''b'']"

definition daily2 :: CorrelationEvent where
  "daily2 = mkEvent ''d2'' (24 * hourMs) (Some 48) (Some 2) ''X'' [''a'', ''b'']"

definition daily3 :: CorrelationEvent where
  "daily3 = mkEvent ''d3'' (48 * hourMs) (Some 48) (Some 2) ''X'' [''a'', ''b'']"

definition dailyEvents :: "CorrelationEvent list" where
  "dailyEvents = [daily1, daily2, daily3]"

text \<open>Three events of one signature at the same instant.\<close>

definition sameTimeEvents :: "CorrelationEvent list" where
  "sameTimeEvents =
     [mkEvent ''s1'' (7 * hourMs) None None ''X'' [''a'', ''b''],
      mkEvent ''s2'' (7 * hourMs) None None ''X'' [''a'', ''b'', ''c''],
      mkEvent ''s3'' (7 * hourMs) None None ''X'' [''a'', ''b'']]"

text \<open>A keyword listed twice by one event and once by another, at the same instant
  and twelve hours later.\<close>

definition dupA :: CorrelationEvent where
  "dupA = mkEvent ''a'' 0 None None ''X'' [''k'', ''k'']"

definition dupB :: CorrelationEvent where
  "dupB = mkEvent ''b'' 0 None None ''Y'' [''k'']"

definition dupC :: CorrelationEvent where
  "dupC = mkEvent ''c'' (12 * hourMs) None None ''Y'' [''k'']"

text \<open>The same with the repeated entry in the later event.\<close>

definition dupD :: CorrelationEvent where
  "dupD = mkEvent ''d'' 0 None None ''X'' [''k'']"

definition dupE :: CorrelationEvent where
  "dupE = mkEvent ''e'' (12 * hourMs) None None ''Y'' [''k'', ''k'']"

text \<open>One event that lists the keyword \<open>k\<close> three times, and three events with a
  keyword that names a property of \<^verbatim>\<open>Object.prototype\<close>.\<close>

definition tripleK :: CorrelationEvent where
  "tripleK = mkEvent ''t'' 0 None None ''X'' [''k'', ''k'', ''k'']"

definition ctorEvents :: "CorrelationEvent list" where
  "ctorEvents =
     [mkEvent ''c1'' 0 None None ''X'' [''constructor''],
      mkEvent ''c2'' hourMs None None ''Y'' [''constructor''],
      mkEvent ''c3'' (2 * hourMs) None None ''Z'' [''constructor'']]"

text \<open>Three events at the north pole and one at the south pole.\<close>

definition polarA :: CorrelationEvent where
  "polarA = mkEvent ''n1'' 0 (Some 90) (Some 10) ''Arctic'' []"

definition polarB :: CorrelationEvent where
  "polarB = mkEvent ''n2'' hourMs (Some 90) (Some 20) ''Arctic'' []"

definition polarC :: CorrelationEvent where
  "polarC = mkEvent ''n3'' (2 * hourMs) (Some 90) (Some 30) ''Arctic'' []"

definition polarD :: CorrelationEvent where
  "polarD = mkEvent ''s1'' 0 (Some (- 90)) (Some 10) ''Antarctic'' []"

definition polarEvents :: "CorrelationEvent list" where
  "polarEvents = [polarA, polarD, polarB, polarC]"

text \<open>Inputs for which the exact value of the expression under \<^verbatim>\<open>Math.round\<close>, or of
  the relative deviation, is a tie and the double is not: with the arithmetic of the reals
  the scores would be 61 and 71, and the deviations exactly 20 percent.\<close>

definition tieTemporal :: "CorrelationEvent list" where
  "tieTemporal =
     [mkEvent ''t1'' 0 None None ''X'' [''p'', ''q''],
      mkEvent ''t2'' 154224000 None None ''Y'' [''p'', ''q'']]"

definition tieCascade :: "CorrelationEvent list" where
  "tieCascade =
     [mkEvent ''c1'' 0 None None ''X'' [],
      mkEvent ''c2'' 85536000 None None ''X'' []]"

definition tiePattern :: "CorrelationEvent list" where
  "tiePattern =
     [mkEvent ''p1'' 0 None None ''X'' [''a'', ''b''],
      mkEvent ''p2'' 2400000 None None ''X'' [''a'', ''b''],
      mkEvent ''p3'' 6000000 None None ''X'' [''a'', ''b'']]"

section \<open>Verification\<close>

subsection \<open>Auxiliary facts\<close>

text \<open>Rounding to binary64: the exponent, evaluation in a known binade, sign,
  monotonicity on the non-negative numbers, and exactness on the doubles.\<close>

lemma two_powi_pos: "0 < (2::real) powi n"
  by (simp add: power_int_def)

lemma two_powi_Suc: "(2::real) powi (n + 1) = 2 powi n * 2"
  by (simp add: power_int_add)

lemma two_powi_pred: "(2::real) powi (n - 1) = 2 powi n / 2"
  by (simp add: power_int_diff)

lemma expoPos_bounds:
  "0 < x \<Longrightarrow> 2 powi expoPos x \<le> x \<and> x < 2 powi (expoPos x + 1)"
proof (induction x rule: expoPos.induct)
  case (1 x)
  show ?case
  proof (cases "2 \<le> x")
    case True
    then have e: "expoPos x = expoPos (x / 2) + 1" by (subst expoPos.simps) simp
    from True 1 have "2 powi expoPos (x / 2) \<le> x / 2 \<and> x / 2 < 2 powi (expoPos (x / 2) + 1)"
      by simp
    then show ?thesis unfolding e two_powi_Suc by simp
  next
    case False
    show ?thesis
    proof (cases "x < 1")
      case True
      with 1 False have e: "expoPos x = expoPos (x * 2) - 1" by (subst expoPos.simps) simp
      from True 1 False have "2 powi expoPos (x * 2) \<le> x * 2 \<and> x * 2 < 2 powi (expoPos (x * 2) + 1)"
        by simp
      then show ?thesis unfolding e two_powi_pred by (simp add: two_powi_Suc)
    next
      case nl: False
      with False have e: "expoPos x = 0" by (subst expoPos.simps) simp
      show ?thesis unfolding e using False nl by simp
    qed
  qed
qed

lemma two_powi_mono: "m \<le> n \<Longrightarrow> (2::real) powi m \<le> 2 powi n"
  by (rule power_int_increasing) simp_all

lemma expo_bounds:
  "x \<noteq> 0 \<Longrightarrow> 2 powi expo x \<le> \<bar>x\<bar> \<and> \<bar>x\<bar> < 2 powi (expo x + 1)"
  unfolding expo_def by (rule expoPos_bounds) simp

lemma expo_unique:
  assumes "2 powi e \<le> \<bar>x\<bar>" and "\<bar>x\<bar> < 2 powi (e + 1)"
  shows "expo x = e"
proof -
  have "0 < \<bar>x\<bar>" using assms(1) two_powi_pos [of e] by linarith
  then have nz: "x \<noteq> 0" by simp
  note b = expo_bounds [OF nz]
  have "\<not> expo x < e"
  proof
    assume "expo x < e"
    then have "(2::real) powi (expo x + 1) \<le> 2 powi e" by (intro two_powi_mono) simp
    with b assms(1) show False by linarith
  qed
  moreover have "\<not> e < expo x"
  proof
    assume "e < expo x"
    then have "(2::real) powi (e + 1) \<le> 2 powi expo x" by (intro two_powi_mono) simp
    with b assms(2) show False by linarith
  qed
  ultimately show ?thesis by simp
qed


lemma roundEven_of_int: "roundEven (of_int k) = k"
  by (simp add: roundEven_def)

lemma roundEven_lower: "\<lfloor>m\<rfloor> \<le> roundEven m"
  by (simp add: roundEven_def Let_def)

lemma roundEven_upper: "roundEven m \<le> \<lfloor>m\<rfloor> + 1"
  by (simp add: roundEven_def Let_def)

lemma roundEven_mono:
  assumes "a \<le> b"
  shows "roundEven a \<le> roundEven b"
proof (cases "\<lfloor>a\<rfloor> = \<lfloor>b\<rfloor>")
  case True
  have "a - of_int \<lfloor>a\<rfloor> \<le> b - of_int \<lfloor>b\<rfloor>" using assms True by simp
  then show ?thesis unfolding roundEven_def Let_def True by auto
next
  case False
  have "\<lfloor>a\<rfloor> \<le> \<lfloor>b\<rfloor>" using assms by (rule floor_mono)
  with False have "\<lfloor>a\<rfloor> + 1 \<le> \<lfloor>b\<rfloor>" by simp
  then show ?thesis using roundEven_upper [of a] roundEven_lower [of b] by linarith
qed

lemma round64_zero: "round64 0 = 0"
  by (simp add: round64_def)

lemma ulp_pos: "0 < ulp x"
  by (simp add: ulp_def two_powi_pos)

lemma round64_eval:
  assumes "2 powi e \<le> \<bar>x\<bar>" and "\<bar>x\<bar> < 2 powi (e + 1)"
  shows "round64 x = of_int (roundEven (x / 2 powi (e - 52))) * 2 powi (e - 52)"
proof -
  have "0 < \<bar>x\<bar>" using assms(1) two_powi_pos [of e] by linarith
  then have "x \<noteq> 0" by simp
  then show ?thesis by (simp add: round64_def ulp_def expo_unique [OF assms])
qed

lemma round64_nonneg:
  assumes "0 \<le> x"
  shows "0 \<le> round64 x"
proof (cases "x = 0")
  case True
  then show ?thesis by (simp add: round64_zero)
next
  case False
  have "0 \<le> x / ulp x" using assms ulp_pos [of x] by simp
  then have "roundEven 0 \<le> roundEven (x / ulp x)" by (rule roundEven_mono)
  then have "0 \<le> roundEven (x / ulp x)" by (simp add: roundEven_def)
  then show ?thesis using False ulp_pos [of x] by (simp add: round64_def)
qed

lemma round64_nonpos:
  assumes "x \<le> 0"
  shows "round64 x \<le> 0"
proof (cases "x = 0")
  case True
  then show ?thesis by (simp add: round64_zero)
next
  case False
  have "x / ulp x \<le> 0" using assms ulp_pos [of x] by (simp add: divide_nonpos_pos)
  then have "roundEven (x / ulp x) \<le> roundEven 0" by (rule roundEven_mono)
  then have "roundEven (x / ulp x) \<le> 0" by (simp add: roundEven_def)
  then have "of_int (roundEven (x / ulp x)) * ulp x \<le> 0"
    using ulp_pos [of x] by (simp add: mult_le_0_iff)
  then show ?thesis using False by (simp add: round64_def)
qed

text \<open>A positive number and its rounding lie in the same binade, ends included.\<close>

lemma round64_binade:
  assumes "0 < x"
  shows "2 powi expo x \<le> round64 x \<and> round64 x \<le> 2 powi (expo x + 1)"
proof -
  define e where "e = expo x"
  define u where "u = (2::real) powi (e - 52)"
  have u: "0 < u" by (simp add: u_def two_powi_pos)
  have b: "2 powi e \<le> x" "x < 2 powi (e + 1)"
    using expo_bounds [of x] assms by (simp_all add: e_def)
  have lo: "2 powi e = of_int (2 ^ 52) * u"
    unfolding u_def using power_int_add [of "2::real" 52 "e - 52"] by simp
  have hi: "2 powi (e + 1) = of_int (2 ^ 53) * u"
    unfolding u_def using power_int_add [of "2::real" 53 "e - 52"] by (simp add: add.commute)
  have "of_int (2 ^ 52) \<le> x / u" using b(1) u unfolding lo by (simp add: pos_le_divide_eq)
  then have "roundEven (of_int (2 ^ 52)) \<le> roundEven (x / u)" by (rule roundEven_mono)
  then have 1: "(2 ^ 52 :: int) \<le> roundEven (x / u)" unfolding roundEven_of_int .
  have "x / u \<le> of_int (2 ^ 53)" using b(2) u unfolding hi by (simp add: pos_divide_le_eq)
  then have "roundEven (x / u) \<le> roundEven (of_int (2 ^ 53))" by (rule roundEven_mono)
  then have 2: "roundEven (x / u) \<le> (2 ^ 53 :: int)" unfolding roundEven_of_int .
  have r: "round64 x = of_int (roundEven (x / u)) * u"
    using assms by (simp add: round64_def ulp_def u_def e_def)
  have i1: "real_of_int (2 ^ 52) \<le> of_int (roundEven (x / u))"
    using 1 by (simp only: of_int_le_iff)
  have i2: "real_of_int (roundEven (x / u)) \<le> of_int (2 ^ 53)"
    using 2 by (simp only: of_int_le_iff)
  have u0: "0 \<le> u" using u by simp
  have "of_int (2 ^ 52) * u \<le> of_int (roundEven (x / u)) * u"
    using i1 u0 by (rule mult_right_mono)
  moreover have "of_int (roundEven (x / u)) * u \<le> of_int (2 ^ 53) * u"
    using i2 u0 by (rule mult_right_mono)
  ultimately show ?thesis unfolding r lo hi e_def [symmetric] by simp
qed


lemma expo_mono:
  assumes "0 < x" and "x \<le> y"
  shows "expo x \<le> expo y"
proof (rule ccontr)
  assume "\<not> expo x \<le> expo y"
  then have "(2::real) powi (expo y + 1) \<le> 2 powi expo x" by (intro two_powi_mono) simp
  moreover have "2 powi expo x \<le> x" using expo_bounds [of x] assms(1) by simp
  moreover have "y < 2 powi (expo y + 1)" using expo_bounds [of y] assms by simp
  ultimately show False using assms(2) by linarith
qed

lemma round64_mono:
  assumes "0 \<le> x" and "x \<le> y"
  shows "round64 x \<le> round64 y"
proof (cases "x = 0")
  case True
  then show ?thesis using assms round64_nonneg [of y] by (simp add: round64_zero)
next
  case False
  then have x: "0 < x" and y: "0 < y" using assms by simp_all
  show ?thesis
  proof (cases "expo x = expo y")
    case True
    have "x / ulp y \<le> y / ulp y" using assms(2) ulp_pos [of y] by (simp add: divide_right_mono)
    then have "roundEven (x / ulp y) \<le> roundEven (y / ulp y)" by (rule roundEven_mono)
    then have "real_of_int (roundEven (x / ulp y)) \<le> of_int (roundEven (y / ulp y))"
      by (simp only: of_int_le_iff)
    moreover have "0 \<le> ulp y" using ulp_pos [of y] by simp
    ultimately have "of_int (roundEven (x / ulp y)) * ulp y \<le> of_int (roundEven (y / ulp y)) * ulp y"
      by (rule mult_right_mono)
    moreover have "ulp x = ulp y" by (simp add: ulp_def True)
    ultimately show ?thesis using x y by (simp add: round64_def)
  next
    case False
    with expo_mono [OF x assms(2)] have "expo x + 1 \<le> expo y" by simp
    then have "(2::real) powi (expo x + 1) \<le> 2 powi expo y" by (rule two_powi_mono)
    then show ?thesis using round64_binade [OF x] round64_binade [OF y] by linarith
  qed
qed

lemma round64_exact:
  assumes "\<bar>k\<bar> < 2 ^ 53"
  shows "round64 (of_int k * 2 powi j) = of_int k * 2 powi j"
proof (cases "k = 0")
  case True
  then show ?thesis by (simp add: round64_zero)
next
  case False
  define ek where "ek = expo (of_int k)"
  have kb: "2 powi ek \<le> \<bar>real_of_int k\<bar>" "\<bar>real_of_int k\<bar> < 2 powi (ek + 1)"
    using expo_bounds [of "of_int k"] False by (simp_all add: ek_def)
  have "\<bar>real_of_int k\<bar> < 2 powi 53" using assms by (metis of_int_abs of_int_less_numeral_power_cancel_iff power_int_numeral)
  with kb(1) have "(2::real) powi ek < 2 powi 53" by linarith
  then have "\<not> 53 \<le> ek" using two_powi_mono [of 53 ek] by auto
  then have e52: "ek \<le> 52" by simp
  have x: "\<bar>real_of_int k * 2 powi j\<bar> = \<bar>real_of_int k\<bar> * 2 powi j"
    using two_powi_pos [of j] by (simp add: abs_mult)
  have ex: "expo (of_int k * 2 powi j) = ek + j"
  proof (rule expo_unique)
    show "2 powi (ek + j) \<le> \<bar>real_of_int k * 2 powi j\<bar>"
      unfolding x using kb(1) two_powi_pos [of j] by (simp add: power_int_add)
    show "\<bar>real_of_int k * 2 powi j\<bar> < 2 powi (ek + j + 1)"
    proof -
      have "\<bar>real_of_int k\<bar> * 2 powi j < 2 powi (ek + 1) * 2 powi j"
        using kb(2) two_powi_pos [of j] by simp
      also have "\<dots> = 2 powi (ek + j + 1)"
        using power_int_add [of "2::real" "ek + 1" j] by (simp add: add.commute add.left_commute)
      finally show ?thesis unfolding x .
    qed
  qed
  have u: "ulp (of_int k * 2 powi j) = 2 powi (ek + j - 52)" by (simp add: ulp_def ex)
  have "(2::real) powi j = 2 powi (52 - ek) * 2 powi (ek + j - 52)"
    using power_int_add [of "2::real" "52 - ek" "ek + j - 52"] by simp
  also have "(2::real) powi (52 - ek) = of_int (2 ^ nat (52 - ek))"
    using e52 by (simp add: power_int_nonneg_exp)
  finally have pj: "(2::real) powi j = of_int (2 ^ nat (52 - ek)) * 2 powi (ek + j - 52)" .
  have q: "real_of_int k * 2 powi j / 2 powi (ek + j - 52) = of_int (k * 2 ^ nat (52 - ek))"
    using two_powi_pos [of "ek + j - 52"] by (subst pj) simp
  have nz: "of_int k * (2::real) powi j \<noteq> 0" using False two_powi_pos [of j] by simp
  have "round64 (of_int k * 2 powi j) = of_int (k * 2 ^ nat (52 - ek)) * 2 powi (ek + j - 52)"
    using nz unfolding round64_def u q roundEven_of_int by simp
  also have "\<dots> = of_int k * 2 powi j" by (subst pj) simp
  finally show ?thesis .
qed

lemma round64_of_int: "\<bar>k\<bar> < 2 ^ 53 \<Longrightarrow> round64 (of_int k) = of_int k"
  using round64_exact [of k 0] by simp

lemma round64_numeral: "(numeral n :: int) < 2 ^ 53 \<Longrightarrow> round64 (numeral n) = numeral n"
  using round64_of_int [of "numeral n"] by simp

lemma round64_one: "round64 1 = 1"
  using round64_of_int [of 1] by simp

lemma round64_dyadic:
  "\<bar>k\<bar> < 2 ^ 53 \<Longrightarrow> round64 (of_int k / 2 ^ n) = of_int k / 2 ^ n"
  using round64_exact [of k "- int n"] by (simp add: power_int_minus field_simps)

lemma round64_fifth: "round64 (2 / 10) = 3602879701896397 / 2 ^ 54"
proof -
  have "round64 (2 / 10) = of_int (roundEven ((2 / 10) / 2 powi (- 3 - 52))) * 2 powi (- 3 - 52)"
    by (rule round64_eval) (simp_all add: power_int_minus)
  also have "(2 / 10) / (2::real) powi (- 3 - 52) = 36028797018963968 / 5"
    by (simp add: power_int_minus)
  also have "roundEven (36028797018963968 / 5) = 7205759403792794"
    by (simp add: roundEven_def)
  finally show ?thesis by (simp add: power_int_minus)
qed

lemma round64_neg_numeral:
  "(numeral n :: int) < 2 ^ 53 \<Longrightarrow> round64 (- numeral n) = - numeral n"
  using round64_of_int [of "- numeral n"] by simp

lemma round64_fifth': "round64 (1 / 5) = 3602879701896397 / 2 ^ 54"
  using round64_fifth by simp

lemmas fl_eval = fadd_def fsub_def fmul_def fdiv_def msToHours_def round64_zero round64_one
  round64_numeral round64_neg_numeral

lemma round64_quarters: "round64 (1 / 4) = 1 / 4" "round64 (3 / 4) = 3 / 4"
  using round64_dyadic [of 1 2] round64_dyadic [of 3 2] by simp_all

subsection \<open>Lists, strings and keys\<close>

lemma sort_key_unique:
  assumes "mset xs = mset ys" and "sorted (map f ys)" and "distinct (map f ys)"
  shows "sort_key f xs = ys"
proof (rule properties_for_sort_key)
  show "mset ys = mset xs" using assms(1) by simp
  show "sorted (map f ys)" by fact
  fix k assume k: "k \<in> set ys"
  have inj: "inj_on f (set ys)" using assms(3) by (simp add: distinct_map)
  have d: "distinct ys" using assms(3) by (simp add: distinct_map)
  have "mset (filter (\<lambda>x. f k = f x) xs) = filter_mset (\<lambda>x. f k = f x) (mset ys)"
    using assms(1) by (metis mset_filter)
  also have "\<dots> = mset (filter (\<lambda>x. f k = f x) ys)" by simp
  also have "filter (\<lambda>x. f k = f x) ys = filter (\<lambda>x. x = k) ys"
    using inj k by (intro filter_cong) (auto dest: inj_onD)
  also have "\<dots> = [k]" using d k
    by (induction ys) (auto simp: filter_empty_conv)
  finally have "mset (filter (\<lambda>x. f k = f x) xs) = mset [k]" by simp
  then have "filter (\<lambda>x. f k = f x) xs = [k]"
    by (metis mset_single_iff_right mset.simps(1) mset.simps(2))
  moreover have "filter (\<lambda>x. f k = f x) ys = [k]"
    using \<open>filter (\<lambda>x. f k = f x) ys = filter (\<lambda>x. x = k) ys\<close> \<open>filter (\<lambda>x. x = k) ys = [k]\<close> by simp
  ultimately show "filter (\<lambda>x. f k = f x) ys = filter (\<lambda>x. f k = f x) xs" by simp
qed

lemma showNat_digits2: "showNat 24 = ''24''" "showNat 26 = ''26''" "showNat 0 = ''0''"
  by (simp_all add: showNat.simps)

lemma arrayIndex_colon: "CHR '':'' \<in> set key \<Longrightarrow> arrayIndex key = None"
proof -
  assume "CHR '':'' \<in> set key"
  moreover have "\<not> isDigit CHR '':''" by (simp add: isDigit_def)
  ultimately have "\<not> list_all isDigit key" by (auto simp: list_all_iff)
  then show ?thesis by (simp add: arrayIndex_def)
qed

lemma patternKey_colon: "CHR '':'' \<in> set (patternKey e)"
  by (simp add: patternKey_def)

lemma patternKey_own_key:
  "patternKey e \<notin> set objectPrototypeKeys \<and> arrayIndex (patternKey e) = None"
proof -
  have "\<forall>k \<in> set objectPrototypeKeys. CHR '':'' \<notin> set k"
    by (simp add: objectPrototypeKeys_def)
  then show ?thesis using patternKey_colon [of e] arrayIndex_colon by blast
qed

subsection \<open>The distance\<close>

lemma haversine_same_point: "haversineDistance la lo la lo = 0"
  by (simp add: haversineDistance_def toRad_def atan2_def)

text \<open>
  The number \<open>a\<close> of \<open>haversineDistance\<close> lies between 0 and 1 for all arguments, so both
  square roots are taken of non-negative numbers, and the distance is not negative.
\<close>

lemma sin_half_sq: "sin (z / 2) * sin (z / 2) = (1 - cos z) / (2::real)"
proof -
  have "cos z = cos (2 * (z / 2))" by simp
  also have "\<dots> = 1 - 2 * (sin (z / 2))\<^sup>2" by (rule cos_double_sin)
  finally show ?thesis by (simp add: power2_eq_square)
qed

lemma cos_prod: "cos p * cos q = (cos (p - q) + cos (p + q)) / (2::real)"
  by (simp add: cos_diff cos_add)

lemma haversine_arg_range:
  fixes p q y :: real
  defines "a \<equiv> sin ((q - p) / 2) * sin ((q - p) / 2) + cos p * cos q * sin (y / 2) * sin (y / 2)"
  shows "0 \<le> a \<and> a \<le> 1"
proof -
  define s where "s = sin (y / 2) * sin (y / 2)"
  define u where "u = cos (q - p)"
  define v where "v = cos (p + q)"
  have sy: "s = (1 - cos y) / 2" unfolding s_def by (rule sin_half_sq)
  have cy: "- 1 \<le> cos y" "cos y \<le> 1" by simp_all
  have s: "0 \<le> s" "s \<le> 1"
  proof -
    show "0 \<le> s" unfolding sy by simp
    have "1 - cos y \<le> 2" using cy(1) by linarith
    then show "s \<le> 1" unfolding sy by simp
  qed
  have u: "- 1 \<le> u" "u \<le> 1" by (simp_all add: u_def)
  have v: "- 1 \<le> v" "v \<le> 1" by (simp_all add: v_def)
  have "cos (p - q) = u" unfolding u_def by (metis cos_minus minus_diff_eq)
  then have a: "a = (1 - u) / 2 + (u + v) / 2 * s"
    unfolding a_def sin_half_sq s_def [symmetric] u_def [symmetric]
    by (simp add: cos_prod v_def mult.assoc s_def)
  have 1: "(1 - s) * u \<le> (1 - s) * 1" using s u by (intro mult_left_mono) simp_all
  have 2: "(1 - s) * (- 1) \<le> (1 - s) * u" using s u by (intro mult_left_mono) simp_all
  have 3: "s * v \<le> s * 1" using s v by (intro mult_left_mono) simp_all
  have 4: "s * (- 1) \<le> s * v" using s v by (intro mult_left_mono) simp_all
  have "2 * a = 1 - (1 - s) * u + s * v" unfolding a by (simp add: field_simps)
  then show ?thesis using 1 2 3 4 by simp
qed


lemma haversine_argument:
  "0 \<le> sin (toRad (lat2 - lat1) / 2) * sin (toRad (lat2 - lat1) / 2)
        + cos (toRad lat1) * cos (toRad lat2)
          * sin (toRad (lon2 - lon1) / 2) * sin (toRad (lon2 - lon1) / 2)
   \<and> sin (toRad (lat2 - lat1) / 2) * sin (toRad (lat2 - lat1) / 2)
        + cos (toRad lat1) * cos (toRad lat2)
          * sin (toRad (lon2 - lon1) / 2) * sin (toRad (lon2 - lon1) / 2) \<le> 1"
proof -
  have "toRad (lat2 - lat1) = toRad lat2 - toRad lat1"
    by (simp add: toRad_def left_diff_distrib)
  then show ?thesis
    using haversine_arg_range [of "toRad lat2" "toRad lat1" "toRad (lon2 - lon1)"] by simp
qed

lemma atan2_nonneg: "0 \<le> y \<Longrightarrow> 0 \<le> x \<Longrightarrow> 0 \<le> atan2 y x"
  by (auto simp: atan2_def zero_le_arctan_iff)

lemma haversine_nonneg: "0 \<le> haversineDistance lat1 lon1 lat2 lon2"
proof -
  let ?a = "sin (toRad (lat2 - lat1) / 2) * sin (toRad (lat2 - lat1) / 2)
        + cos (toRad lat1) * cos (toRad lat2)
          * sin (toRad (lon2 - lon1) / 2) * sin (toRad (lon2 - lon1) / 2)"
  have "0 \<le> ?a" "?a \<le> 1" using haversine_argument by blast+
  then have "0 \<le> atan2 (sqrt ?a) (sqrt (1 - ?a))" by (intro atan2_nonneg) simp_all
  then show ?thesis by (simp add: haversineDistance_def Let_def)
qed

subsection \<open>The pair loop and the scores\<close>

lemma set_forPairs:
  "r \<in> set (forPairs body xs) \<Longrightarrow> \<exists>x\<in>set xs. \<exists>y\<in>set xs. r \<in> set (body x y)"
  by (induction xs) auto

lemma js_round_nonneg: "0 \<le> x \<Longrightarrow> 0 \<le> js_round x"
  by (simp add: js_round_def)

text \<open>The score expression of the temporal and the cascade pass is not negative
  inside the window.\<close>

lemma window_score_nonneg:
  assumes "0 \<le> h" and "h \<le> w" and "0 < w" and "0 \<le> b"
  shows "0 \<le> fadd (fmul (fsub 1 (fdiv h w)) 100) b"
proof -
  have "0 \<le> h / w" "h / w \<le> 1" using assms by simp_all
  then have "round64 (h / w) \<le> round64 1" by (intro round64_mono)
  then have q: "fdiv h w \<le> 1" by (simp add: fdiv_def round64_one)
  then have "0 \<le> fsub 1 (fdiv h w)" unfolding fsub_def by (intro round64_nonneg) simp
  then have "0 \<le> fmul (fsub 1 (fdiv h w)) 100" unfolding fmul_def by (intro round64_nonneg) simp
  then show ?thesis unfolding fadd_def using assms(4) by (intro round64_nonneg) simp
qed

lemma temporalPair_score:
  assumes "r \<in> set (temporalPair e1 e2)"
  shows "0 \<le> score r \<and> score r \<le> 100"
proof -
  define td where "td = msToHours \<bar>fsub (real_of_int (date e1)) (real_of_int (date e2))\<bar>"
  define n where "n = length (sharedKeywords e1 e2)"
  from assms have w: "td \<le> 72"
    and sc: "score r = min 100 (js_round (fadd (fmul (fsub 1 (fdiv td 72)) 100) (real n * 10)))"
    by (auto simp: temporalPair_def Let_def td_def n_def CORRELATION_WINDOW_def split: if_splits)
  have "0 \<le> td" unfolding td_def msToHours_def fdiv_def by (intro round64_nonneg) simp
  then have "0 \<le> fadd (fmul (fsub 1 (fdiv td 72)) 100) (real n * 10)"
    using w by (intro window_score_nonneg) simp_all
  then have "0 \<le> js_round (fadd (fmul (fsub 1 (fdiv td 72)) 100) (real n * 10))"
    by (rule js_round_nonneg)
  with sc show ?thesis by simp
qed

lemma spatialPair_score:
  assumes "r \<in> set (spatialPair e1 e2)"
  shows "0 \<le> score r \<and> score r \<le> 100"
proof -
  define d where "d = haversineDistance (the (lat e1)) (the (lon e1)) (the (lat e2)) (the (lon e2))"
  from assms have w: "d \<le> 500" and sc: "score r = min 100 (js_round ((1 - d / 500) * 100))"
    by (auto simp: spatialPair_def Let_def d_def SPATIAL_THRESHOLD_KM_def split: if_splits)
  have "0 \<le> (1 - d / 500) * 100" using w by simp
  then have "0 \<le> js_round ((1 - d / 500) * 100)" by (rule js_round_nonneg)
  with sc show ?thesis by simp
qed

lemma cascadePair_score:
  assumes "r \<in> set (cascadePair e1 e2)"
  shows "0 \<le> score r \<and> score r \<le> 100"
proof -
  define h where "h = msToHours (fsub (real_of_int (date e2)) (real_of_int (date e1)))"
  define b where "b = (if region e1 = region e2 then 20 else real (length (sharedKeywords e1 e2)) * 10)"
  from assms have w: "6 < h" "h < 48"
    and sc: "score r = min 100 (js_round (fadd (fmul (fsub 1 (fdiv h 48)) 100) b))"
    by (auto simp: cascadePair_def Let_def h_def b_def split: if_splits)
  have "0 \<le> b" by (simp add: b_def)
  then have "0 \<le> fadd (fmul (fsub 1 (fdiv h 48)) 100) b"
    using w by (intro window_score_nonneg) simp_all
  then have "0 \<le> js_round (fadd (fmul (fsub 1 (fdiv h 48)) 100) b)" by (rule js_round_nonneg)
  with sc show ?thesis by simp
qed

lemma sortByScore_Nil: "(sortByScore rs = []) = (rs = [])"
  by (metis length_0_conv length_sort sortByScore_def)

lemma forPairs_nonempty: "body x y \<noteq> [] \<Longrightarrow> forPairs body (x # y # rest) \<noteq> []"
  by simp

text \<open>A lower bound of the score expression in the first quarter of the window.\<close>

lemma window_score_quarter:
  assumes "0 \<le> h" and "h * 4 \<le> w" and "0 < w"
  shows "95 \<le> fadd (fmul (fsub 1 (fdiv h w)) 100) 20"
proof -
  have "0 \<le> h / w" "h / w \<le> 1 / 4" using assms by (simp_all add: field_simps)
  then have "round64 (h / w) \<le> round64 (1 / 4)" by (intro round64_mono)
  moreover have "round64 (1 / 4) = 1 / 4" using round64_dyadic [of 1 2] by simp
  ultimately have q: "fdiv h w \<le> 1 / 4" by (simp add: fdiv_def)
  have "round64 (3 / 4) \<le> round64 (1 - fdiv h w)" using q by (intro round64_mono) simp_all
  moreover have "round64 (3 / 4) = 3 / 4" using round64_dyadic [of 3 2] by simp
  ultimately have s: "3 / 4 \<le> fsub 1 (fdiv h w)" by (simp add: fsub_def)
  have "round64 75 \<le> round64 (fsub 1 (fdiv h w) * 100)" using s by (intro round64_mono) simp_all
  then have p: "75 \<le> fmul (fsub 1 (fdiv h w)) 100" by (simp add: fmul_def round64_numeral)
  have "round64 95 \<le> round64 (fmul (fsub 1 (fdiv h w)) 100 + 20)"
    using p by (intro round64_mono) simp_all
  then show ?thesis by (simp add: fadd_def round64_numeral)
qed

text \<open>An interval within a fifth of a positive average does not deviate, when the
  difference of the two is a double.\<close>

lemma not_deviates:
  assumes "0 < a" and "round64 (i - a) = i - a" and "\<bar>i - a\<bar> * 5 \<le> a"
  shows "deviates i a = False"
proof -
  have "0 \<le> \<bar>i - a\<bar> / a" "\<bar>i - a\<bar> / a \<le> 2 / 10" using assms(1,3) by (simp_all add: field_simps)
  then have "round64 (\<bar>i - a\<bar> / a) \<le> round64 (2 / 10)" by (intro round64_mono)
  then show ?thesis using assms(1,2) by (simp add: deviates_def fsub_def fdiv_def)
qed

lemma thematicEntry_score:
  assumes "r \<in> set (thematicEntry es entry)"
  shows "0 \<le> score r \<and> score r \<le> 100"
proof -
  obtain k ids where e: "entry = (k, ids)" by (cases entry)
  from assms have sc: "score r = min 100 (js_round (real (length ids) * 15))"
    by (auto simp: thematicEntry_def e Let_def split: if_splits)
  have "0 \<le> js_round (real (length ids) * 15)" by (rule js_round_nonneg) simp
  with sc show ?thesis by simp
qed

lemma analyzeGroup_confidence:
  assumes "p \<in> set (analyzeGroup dates)"
  shows "0 \<le> confidence p \<and> confidence p \<le> 100"
proof -
  from assms have sc: "confidence p = min 100 (js_round (real (length dates) * 20))"
    by (auto simp: analyzeGroup_def Let_def split: if_splits)
  have "0 \<le> js_round (real (length dates) * 20)" by (rule js_round_nonneg) simp
  with sc show ?thesis by simp
qed

lemma temporal_type: "r \<in> set (findTemporalCorrelations es) \<Longrightarrow> type_res r = Temporal"
  by (auto simp: findTemporalCorrelations_def sortByScore_def temporalPair_def Let_def
      dest!: set_forPairs split: if_splits)

lemma spatial_type: "r \<in> set (findSpatialCorrelations es) \<Longrightarrow> type_res r = Spatial"
  by (auto simp: findSpatialCorrelations_def sortByScore_def spatialPair_def Let_def
      dest!: set_forPairs split: if_splits)

lemma cascade_type: "r \<in> set (detectCascades es) \<Longrightarrow> type_res r = Cascade"
  by (auto simp: detectCascades_def sortByScore_def cascadePair_def Let_def
      dest!: set_forPairs split: if_splits)

subsection \<open>Dictionary objects\<close>

lemma pushTo_keys:
  "map fst (pushTo k v g) = (if k \<in> fst ` set g then map fst g else map fst g @ [k])"
  by (induction g) (auto split: if_splits)

lemma pushTo_distinct: "distinct (map fst g) \<Longrightarrow> distinct (map fst (pushTo k v g))"
  by (simp add: pushTo_keys)

lemma pushTo_lookup:
  "lookupList (pushTo k v g) k' = (if k' = k then lookupList g k @ [v] else lookupList g k')"
  by (induction g) (auto simp: lookupList_def)

lemma lookupList_mem:
  "distinct (map fst g) \<Longrightarrow> k \<in> fst ` set g \<Longrightarrow> (k, lookupList g k) \<in> set g"
  by (auto simp: lookupList_def split: option.splits dest: map_of_SomeD simp: map_of_eq_None_iff)

lemma lookupList_eq:
  "distinct (map fst g) \<Longrightarrow> (k, vs) \<in> set g \<Longrightarrow> lookupList g k = vs"
  by (simp add: lookupList_def)

lemma groupDates_keys:
  "fst ` set (groupDates es g) = fst ` set g \<union> patternKey ` set es"
proof (induction es arbitrary: g)
  case Nil then show ?case by simp
next
  case (Cons e es)
  have "fst ` set (pushTo (patternKey e) (date e) g) = insert (patternKey e) (fst ` set g)"
    using pushTo_keys [of "patternKey e" "date e" g]
    by (metis (no_types, lifting) Un_insert_right append_Nil2 insert_absorb list.set_map list.simps(15) set_append)
  then show ?case using Cons.IH by auto
qed

lemma groupDates_distinct:
  "distinct (map fst g) \<Longrightarrow> distinct (map fst (groupDates es g))"
  by (induction es arbitrary: g) (auto simp: pushTo_distinct)

lemma groupDates_lookup:
  "lookupList (groupDates es g) k =
     lookupList g k @ map date (filter (\<lambda>e. patternKey e = k) es)"
  by (induction es arbitrary: g) (auto simp: pushTo_lookup)

lemma intervals_replicate: "intervals (replicate n t) = replicate (n - 1) 0"
proof (induction n)
  case 0 then show ?case by simp
next
  case (Suc n) then show ?case by (cases n) (auto simp: fsub_def round64_zero)
qed

lemma fold_fadd_zeros: "fold (\<lambda>iv total. fadd total iv) (replicate k 0) 0 = 0"
  by (induction k) (simp_all add: fadd_def round64_zero)

lemma set_objectEntries: "set (objectEntries m) = set m"
  by (auto simp: objectEntries_def)

lemma showNat_0: "showNat 0 = ''0''"
  by (simp add: showNat.simps)

lemma showNat_3: "showNat 3 = ''3''"
  by (simp add: showNat.simps)

subsection \<open>The cluster loops\<close>

lemma haversine_sym:
  "haversineDistance la1 lo1 la2 lo2 = haversineDistance la2 lo2 la1 lo1"
proof -
  have a: "toRad (la1 - la2) = - toRad (la2 - la1)" unfolding toRad_def by (metis minus_diff_eq mult_minus_left)
  have b: "toRad (lo1 - lo2) = - toRad (lo2 - lo1)" unfolding toRad_def by (metis minus_diff_eq mult_minus_left)
  show ?thesis
    unfolding haversineDistance_def Let_def a b by (simp add: mult.commute)
qed

lemma distanceKm_sym: "distanceKm e1 e2 = distanceKm e2 e1"
  unfolding distanceKm_def by (rule haversine_sym)

lemma absorb_cases:
  "absorb seed other (c, u) =
     (if absorbs seed other
      then (absorbed c seed other, insert (id_ev other) u)
      else (c, u))"
  unfolding absorbs_def absorbed_def absorb_def distanceKm_def Let_def
  by (simp split del: if_split cong: if_cong) (simp add: eq_commute)

lemma absorbed_fields:
  "eventCount (absorbed c seed other) = eventCount c + 1"
  "radiusKm (absorbed c seed other) = max (radiusKm c) (distanceKm seed other)"
  "centerLat (absorbed c seed other) = centerLat c"
  "centerLon (absorbed c seed other) = centerLon c"
  "set (categories (absorbed c seed other)) = insert (category other) (set (categories c))"
  by (auto simp: absorbed_def)

lemma members_Cons:
  "members seed (x # xs) = (if absorbs seed x then x # members seed xs else members seed xs)"
  by (simp add: members_def)

lemma members_Nil: "members seed [] = []"
  by (simp add: members_def)

lemma fold_absorb_snd:
  "snd (fold (absorb seed) xs (c, u)) = u \<union> id_ev ` set (members seed xs)"
proof (induction xs arbitrary: c u)
  case Nil
  then show ?case by (simp add: members_Nil)
next
  case (Cons x xs)
  show ?case
  proof (cases "absorbs seed x")
    case True
    then show ?thesis by (simp add: absorb_cases members_Cons Cons.IH)
  next
    case False
    then show ?thesis by (simp add: absorb_cases members_Cons Cons.IH)
  qed
qed

lemma fold_absorb_fst_used:
  "fst (fold (absorb seed) xs (c, u)) = fst (fold (absorb seed) xs (c, u'))"
proof (induction xs arbitrary: c u u')
  case Nil
  then show ?case by simp
next
  case (Cons x xs)
  show ?case
  proof (cases "absorbs seed x")
    case True
    then show ?thesis using Cons.IH [of "absorbed c seed x" "insert (id_ev x) u" "insert (id_ev x) u'"]
      by (simp add: absorb_cases)
  next
    case False
    then show ?thesis using Cons.IH [of c u u'] by (simp add: absorb_cases)
  qed
qed

lemma fold_absorb_count:
  "eventCount (fst (fold (absorb seed) xs (c, u))) = eventCount c + length (members seed xs)"
proof (induction xs arbitrary: c u)
  case Nil
  then show ?case by (simp add: members_Nil)
next
  case (Cons x xs)
  show ?case
  proof (cases "absorbs seed x")
    case True
    then show ?thesis by (simp add: absorb_cases members_Cons Cons.IH absorbed_fields)
  next
    case False
    then show ?thesis by (simp add: absorb_cases members_Cons Cons.IH)
  qed
qed

lemma fold_absorb_center:
  "centerLat (fst (fold (absorb seed) xs (c, u))) = centerLat c
   \<and> centerLon (fst (fold (absorb seed) xs (c, u))) = centerLon c"
proof (induction xs arbitrary: c u)
  case Nil
  then show ?case by simp
next
  case (Cons x xs)
  show ?case
  proof (cases "absorbs seed x")
    case True
    then show ?thesis by (simp add: absorb_cases Cons.IH absorbed_fields)
  next
    case False
    then show ?thesis by (simp add: absorb_cases Cons.IH)
  qed
qed

lemma fold_absorb_radius:
  "radiusKm (fst (fold (absorb seed) xs (c, u)))
     = fold max (map (distanceKm seed) (members seed xs)) (radiusKm c)"
proof (induction xs arbitrary: c u)
  case Nil
  then show ?case by (simp add: members_Nil)
next
  case (Cons x xs)
  show ?case
  proof (cases "absorbs seed x")
    case True
    then show ?thesis
      by (simp add: absorb_cases members_Cons Cons.IH absorbed_fields max.commute)
  next
    case False
    then show ?thesis by (simp add: absorb_cases members_Cons Cons.IH)
  qed
qed

lemma fold_absorb_categories:
  "set (categories (fst (fold (absorb seed) xs (c, u))))
     = set (categories c) \<union> category ` set (members seed xs)"
proof (induction xs arbitrary: c u)
  case Nil
  then show ?case by (simp add: members_Nil)
next
  case (Cons x xs)
  show ?case
  proof (cases "absorbs seed x")
    case True
    then show ?thesis by (simp add: absorb_cases members_Cons Cons.IH absorbed_fields)
  next
    case False
    then show ?thesis by (simp add: absorb_cases members_Cons Cons.IH)
  qed
qed

lemma fold_absorb_eq:
  "fold (absorb seed) all (seedCluster seed, used)
     = (clusterOf seed all, used \<union> id_ev ` set (members seed all))"
proof -
  have "fst (fold (absorb seed) all (seedCluster seed, used)) = clusterOf seed all"
    unfolding clusterOf_def by (rule fold_absorb_fst_used)
  moreover have "snd (fold (absorb seed) all (seedCluster seed, used))
      = used \<union> id_ev ` set (members seed all)" by (rule fold_absorb_snd)
  ultimately show ?thesis by (metis prod.collapse)
qed

lemma clusterOf_fields:
  "eventCount (clusterOf seed es) = 1 + length (members seed es)"
  "centerLat (clusterOf seed es) = the (lat seed)"
  "centerLon (clusterOf seed es) = the (lon seed)"
  "radiusKm (clusterOf seed es) = Max (insert 50 (distanceKm seed ` set (members seed es)))"
  "set (categories (clusterOf seed es)) = insert (category seed) (category ` set (members seed es))"
proof -
  show "eventCount (clusterOf seed es) = 1 + length (members seed es)"
    by (simp add: clusterOf_def fold_absorb_count seedCluster_def)
  show "centerLat (clusterOf seed es) = the (lat seed)"
    by (simp add: clusterOf_def fold_absorb_center seedCluster_def)
  show "centerLon (clusterOf seed es) = the (lon seed)"
    by (simp add: clusterOf_def fold_absorb_center seedCluster_def)
  have "Max (set (50 # map (distanceKm seed) (members seed es)))
      = fold max (map (distanceKm seed) (members seed es)) 50"
    by (rule Max.set_eq_fold)
  then show "radiusKm (clusterOf seed es) = Max (insert 50 (distanceKm seed ` set (members seed es)))"
    by (simp add: clusterOf_def fold_absorb_radius seedCluster_def)
  show "set (categories (clusterOf seed es)) = insert (category seed) (category ` set (members seed es))"
    by (simp add: clusterOf_def fold_absorb_categories seedCluster_def)
qed

lemma clusterLoop_Cons:
  "clusterLoop all (event # rest) used =
     (if \<not> truthy (lat event) \<or> \<not> truthy (lon event) \<or> id_ev event \<in> used
      then clusterLoop all rest used
      else (if members event all \<noteq> [] then [clusterOf event all] else [])
           @ clusterLoop all rest (used \<union> id_ev ` set (members event all)))"
proof -
  have "(2 \<le> eventCount (clusterOf event all)) = (members event all \<noteq> [])"
    by (cases "members event all") (simp_all add: clusterOf_fields)
  then show ?thesis by (simp add: fold_absorb_eq)
qed

lemma clusterLoop_seed:
  assumes "c \<in> set (clusterLoop all rest used)"
  shows "\<exists>seed \<in> set rest. truthy (lat seed) \<and> truthy (lon seed) \<and> members seed all \<noteq> []
           \<and> c = clusterOf seed all"
  using assms
proof (induction rest arbitrary: used)
  case Nil
  then show ?case by simp
next
  case (Cons e rest)
  then show ?case unfolding clusterLoop_Cons by (auto split: if_splits)
qed

lemma findGeographicClusters_seed:
  assumes "c \<in> set (findGeographicClusters es)"
  shows "\<exists>seed \<in> set es. truthy (lat seed) \<and> truthy (lon seed) \<and> members seed es \<noteq> []
           \<and> c = clusterOf seed es"
  using assms clusterLoop_seed [of c es es "{}"] by (simp add: findGeographicClusters_def)

lemma clusters_at_least_two:
  "c \<in> set (findGeographicClusters es) \<Longrightarrow> 2 \<le> eventCount c"
proof -
  assume "c \<in> set (findGeographicClusters es)"
  then obtain seed where "members seed es \<noteq> []" "c = clusterOf seed es"
    using findGeographicClusters_seed by blast
  then show ?thesis by (cases "members seed es") (simp_all add: clusterOf_fields)
qed

lemma near_far_clusters:
  assumes coords: "\<forall>e \<in> {a, b, c, d}. truthy (lat e) \<and> truthy (lon e)"
    and ids: "distinct (map id_ev [a, b, c, d])"
    and near: "distanceKm a b \<le> 50" "distanceKm a c \<le> 50" "distanceKm b c \<le> 50"
    and far: "500 < distanceKm a d" "500 < distanceKm b d" "500 < distanceKm c d"
    and pos: "k \<le> 3" "es = take k [a, b, c] @ d # drop k [a, b, c]"
  shows "findGeographicClusters es = [clusterOf a es] \<and> members a es = [b, c] \<and> members d es = []"
proof -
  have self: "\<not> absorbs x x" for x by (simp add: absorbs_def)
  have ab: "absorbs a b" "absorbs a c"
    using coords ids near by (auto simp: absorbs_def)
  have fr: "\<not> absorbs a d" "\<not> absorbs d a" "\<not> absorbs d b" "\<not> absorbs d c"
    using far distanceKm_sym [of d a] distanceKm_sym [of d b] distanceKm_sym [of d c]
    by (auto simp: absorbs_def)
  have tr: "truthy (lat a)" "truthy (lon a)" "truthy (lat b)" "truthy (lon b)"
    "truthy (lat c)" "truthy (lon c)" "truthy (lat d)" "truthy (lon d)"
    using coords by auto
  have idn: "id_ev a \<noteq> id_ev b" "id_ev a \<noteq> id_ev c" "id_ev a \<noteq> id_ev d"
    "id_ev b \<noteq> id_ev c" "id_ev b \<noteq> id_ev d" "id_ev c \<noteq> id_ev d"
    using ids by auto
  from pos(1) consider "k = 0" | "k = 1" | "k = 2" | "k = 3" by linarith
  then have shape: "es = [d, a, b, c] \<or> es = [a, d, b, c] \<or> es = [a, b, d, c] \<or> es = [a, b, c, d]"
    using pos(2) by cases (simp_all add: numeral_2_eq_2 numeral_3_eq_3)
  have ma: "members a es = [b, c]"
    using shape by (auto simp: members_Cons members_Nil self ab fr)
  have md: "members d es = []"
    using shape by (auto simp: members_Cons members_Nil self fr)
  have loop: "clusterLoop es es {} = [clusterOf a es]"
    using shape
  proof (elim disjE)
    assume e: "es = [d, a, b, c]"
    have "clusterLoop es [d, a, b, c] {} = [clusterOf a es]"
      by (simp add: clusterLoop_Cons ma md tr idn idn [symmetric] del: clusterLoop.simps(2))
    then show ?thesis using e by simp
  next
    assume e: "es = [a, d, b, c]"
    have "clusterLoop es [a, d, b, c] {} = [clusterOf a es]"
      by (simp add: clusterLoop_Cons ma md tr idn idn [symmetric] del: clusterLoop.simps(2))
    then show ?thesis using e by simp
  next
    assume e: "es = [a, b, d, c]"
    have "clusterLoop es [a, b, d, c] {} = [clusterOf a es]"
      by (simp add: clusterLoop_Cons ma md tr idn idn [symmetric] del: clusterLoop.simps(2))
    then show ?thesis using e by simp
  next
    assume e: "es = [a, b, c, d]"
    have "clusterLoop es [a, b, c, d] {} = [clusterOf a es]"
      by (simp add: clusterLoop_Cons ma md tr idn idn [symmetric] del: clusterLoop.simps(2))
    then show ?thesis using e by simp
  qed
  then show ?thesis using ma md by (simp add: findGeographicClusters_def)
qed

subsection \<open>The passes on the examples\<close>

lemma twin_pair:
  "map significance (temporalPair twin1 twin2) = [High]"
proof -
  have td: "msToHours \<bar>fsub (real_of_int (date twin1)) (real_of_int (date twin2))\<bar> = 1"
    by (simp add: twin1_def twin2_def mkEvent_def hourMs_def fl_eval)
  have sh: "length (sharedKeywords twin1 twin2) = 2"
    by (simp add: twin1_def twin2_def mkEvent_def sharedKeywords_def)
  have "95 \<le> fadd (fmul (fsub 1 (fdiv 1 72)) 100) 20"
    by (rule window_score_quarter) simp_all
  then have "95 \<le> js_round (fadd (fmul (fsub 1 (fdiv 1 72)) 100) 20)"
    unfolding js_round_def by (simp add: le_floor_iff)
  then have "70 < min 100 (js_round (fadd (fmul (fsub 1 (fdiv 1 72)) 100) 20))" by simp
  then show ?thesis
    by (simp add: temporalPair_def td sh CORRELATION_WINDOW_def Let_def)
qed

lemma twin_temporal:
  "map significance (findTemporalCorrelations twinEvents) = [High]"
proof -
  obtain r where r: "temporalPair twin1 twin2 = [r]" "significance r = High"
    using twin_pair by (cases "temporalPair twin1 twin2") auto
  then show ?thesis
    by (simp add: findTemporalCorrelations_def twinEvents_def sortByScore_def)
qed

lemma twin_thematic: "\<not> isl (findThematicCorrelations twinEvents)"
  by (simp add: twinEvents_def twin1_def twin2_def mkEvent_def findThematicCorrelations_def objectPrototypeKeys_def)

lemma daily_temporal: "findTemporalCorrelations dailyEvents \<noteq> []"
proof -
  have "temporalPair daily1 daily2 \<noteq> []"
    by (simp add: temporalPair_def daily1_def daily2_def mkEvent_def hourMs_def fl_eval
        sharedKeywords_def CORRELATION_WINDOW_def Let_def)
  then show ?thesis
    unfolding findTemporalCorrelations_def sortByScore_Nil dailyEvents_def
    by (rule forPairs_nonempty)
qed

lemma daily_spatial: "map score (findSpatialCorrelations dailyEvents) = [100, 100, 100]"
  by (simp add: dailyEvents_def daily1_def daily2_def daily3_def mkEvent_def findSpatialCorrelations_def spatialPair_def
      sortByScore_def haversine_same_point SPATIAL_THRESHOLD_KM_def js_round_def Let_def)

lemma daily_thematic:
  "map score (projr (findThematicCorrelations dailyEvents)) = [45, 45]
   \<and> \<not> isl (findThematicCorrelations dailyEvents)"
  by (simp add: dailyEvents_def daily1_def daily2_def daily3_def mkEvent_def findThematicCorrelations_def objectPrototypeKeys_def
      objectEntries_def arrayIndex_def isDigit_def thematicEntry_def sortByScore_def js_round_def
      Let_def)

lemma daily_cascades: "detectCascades dailyEvents \<noteq> []"
proof -
  have s: "sortByDate dailyEvents = dailyEvents"
    by (simp add: sortByDate_def dailyEvents_def daily1_def daily2_def daily3_def mkEvent_def hourMs_def)
  have "cascadePair daily1 daily2 \<noteq> []"
    by (simp add: cascadePair_def daily1_def daily2_def mkEvent_def hourMs_def fl_eval Let_def)
  then show ?thesis
    unfolding detectCascades_def sortByScore_Nil s unfolding dailyEvents_def
    by (rule forPairs_nonempty)
qed

lemma daily_patterns: "map confidence (findTemporalPatterns dailyEvents) = [60]"
proof -
  have s: "sortByDate dailyEvents = dailyEvents"
    by (simp add: sortByDate_def dailyEvents_def daily1_def daily2_def daily3_def mkEvent_def hourMs_def)
  show ?thesis
    unfolding findTemporalPatterns_def s
    by (simp add: dailyEvents_def daily1_def daily2_def daily3_def mkEvent_def hourMs_def
        patternKey_def objectEntries_def arrayIndex_colon analyzeGroup_def fl_eval not_deviates
        js_round_def Let_def)
qed

lemma toRad_90:
  "toRad 0 = 0" "toRad 90 = pi / 2" "toRad (- 90) = - (pi / 2)" "toRad (- 180) = - pi"
  by (simp_all add: toRad_def)

lemma polar_near:
  "distanceKm polarA polarB = 0" "distanceKm polarA polarC = 0" "distanceKm polarB polarC = 0"
  by (simp_all add: distanceKm_def polarA_def polarB_def polarC_def mkEvent_def
      haversineDistance_def toRad_90 atan2_def Let_def)

lemma polar_far:
  "distanceKm polarA polarD = 6371 * pi" "distanceKm polarB polarD = 6371 * pi"
  "distanceKm polarC polarD = 6371 * pi"
  by (simp_all add: distanceKm_def polarA_def polarB_def polarC_def polarD_def mkEvent_def
      haversineDistance_def toRad_90 atan2_def Let_def)

lemma polar_far_500: "500 < 6371 * pi"
  using pi_ge_two by simp

lemma polar_clusters:
  "findGeographicClusters polarEvents = [clusterOf polarA polarEvents]
   \<and> members polarA polarEvents = [polarB, polarC]
   \<and> members polarD polarEvents = []"
proof (rule near_far_clusters [where k = 1])
  show "\<forall>e \<in> {polarA, polarB, polarC, polarD}. truthy (lat e) \<and> truthy (lon e)"
    by (simp add: polarA_def polarB_def polarC_def polarD_def mkEvent_def)
  show "distinct (map id_ev [polarA, polarB, polarC, polarD])"
    by (simp add: polarA_def polarB_def polarC_def polarD_def mkEvent_def)
  show "polarEvents = take 1 [polarA, polarB, polarC] @ polarD # drop 1 [polarA, polarB, polarC]"
    by (simp add: polarEvents_def)
qed (simp_all add: polar_near polar_far polar_far_500)

subsection \<open>The arithmetic at ties\<close>

text \<open>
  Rounding is computable: on a rational argument the exponent is found by halving and
  doubling. At the three inputs above the passes give what binary64 gives: a temporal
  score of 60, a cascade score of 70, and no pattern, because the first deviation comes out
  above the double nearest to one fifth.
\<close>

lemma expoPos_eval:
  "2 \<le> x \<Longrightarrow> expoPos x = expoPos (x / 2) + 1"
  "0 < x \<Longrightarrow> x < 1 \<Longrightarrow> expoPos x = expoPos (x * 2) - 1"
  "1 \<le> x \<Longrightarrow> x < 2 \<Longrightarrow> expoPos x = 0"
  by (subst expoPos.simps, simp)+

lemmas round64_compute = fadd_def fsub_def fmul_def fdiv_def msToHours_def round64_def ulp_def
  expo_def expoPos_eval roundEven_def Let_def power_int_minus

lemma tie_temporal_score: "map score (findTemporalCorrelations tieTemporal) = [60]"
  by (simp add: tieTemporal_def mkEvent_def findTemporalCorrelations_def temporalPair_def
      sortByScore_def sharedKeywords_def CORRELATION_WINDOW_def js_round_def round64_compute)

lemma tie_cascade_score: "map score (detectCascades tieCascade) = [70]"
  by (simp add: tieCascade_def mkEvent_def detectCascades_def sortByDate_def cascadePair_def
      sortByScore_def sharedKeywords_def js_round_def round64_compute)

lemma tie_pattern_suppressed: "findTemporalPatterns tiePattern = []"
  by (simp add: tiePattern_def mkEvent_def findTemporalPatterns_def sortByDate_def patternKey_def
      objectEntries_def arrayIndex_colon analyzeGroup_def deviates_def round64_compute)

subsection \<open>C1: pattern detection on the 24-hour example\<close>

lemma C1_three:
  assumes "region e1 = ''X''" "take 2 (keywords_ev e1) = [''a'', ''b'']"
      "region e2 = ''X''" "take 2 (keywords_ev e2) = [''a'', ''b'']"
      "region e3 = ''X''" "take 2 (keywords_ev e3) = [''a'', ''b'']"
      "date e2 = date e1 + 24 * 3600000" "date e3 = date e2 + 24 * 3600000"
      "mset es = {#e1, e2, e3#}"
  shows "findTemporalPatterns es = 
        [\<lparr>pattern = ''recurring every 24 hours'', frequency = 24, confidence = 60,
          recentHits = [date e1, date e2, date e3]\<rparr>]"
proof -
  have s: "sortByDate es = [e1, e2, e3]"
    unfolding sortByDate_def using assms by (intro sort_key_unique) auto
  show ?thesis
    using assms(1-8)
    by (simp add: findTemporalPatterns_def s patternKey_def objectEntries_def arrayIndex_colon
        analyzeGroup_def fl_eval not_deviates js_round_def showInt_def showNat_digits2)
qed

lemma C1_four:
  assumes "region e1 = ''X''" "take 2 (keywords_ev e1) = [''a'', ''b'']"
      "region e2 = ''X''" "take 2 (keywords_ev e2) = [''a'', ''b'']"
      "region e3 = ''X''" "take 2 (keywords_ev e3) = [''a'', ''b'']"
      "region e4 = ''X''" "take 2 (keywords_ev e4) = [''a'', ''b'']"
      "date e2 = date e1 + 24 * 3600000" "date e3 = date e2 + 24 * 3600000"
      "date e4 = date e3 + 30 * 3600000"
      "mset es = {#e1, e2, e3, e4#}"
  shows "findTemporalPatterns es = 
        [\<lparr>pattern = ''recurring every 26 hours'', frequency = 26, confidence = 80,
          recentHits = [date e1, date e2, date e3, date e4]\<rparr>]"
proof -
  have s: "sortByDate es = [e1, e2, e3, e4]"
    unfolding sortByDate_def using assms by (intro sort_key_unique) auto
  show ?thesis
    using assms(1-11)
    by (simp add: findTemporalPatterns_def s patternKey_def objectEntries_def arrayIndex_colon
        analyzeGroup_def fl_eval not_deviates js_round_def showInt_def showNat_digits2)
qed

text \<open>
  C1, as amended. Three events of region \<open>X\<close> whose first two keywords are \<open>a\<close>, \<open>b\<close>, 24
  hours apart, given in any order, yield exactly one pattern, of frequency 24 and confidence
  60. A fourth event of the same signature 30 hours after the third does not suppress
  it: every interval is compared with the mean interval, which is now 26 hours, and 24
  and 30 are both within 20 percent of 26. The pass returns exactly one pattern, of frequency
  26 and confidence 80.
\<close>

theorem C1_patterns_amended:
  assumes "\<forall>e \<in> {e1, e2, e3, e4}. region e = ''X'' \<and> take 2 (keywords_ev e) = [''a'', ''b'']"
    and "date e2 = date e1 + 24 * hourMs"
    and "date e3 = date e2 + 24 * hourMs"
    and "date e4 = date e3 + 30 * hourMs"
    and "mset es3 = {#e1, e2, e3#}"
    and "mset es4 = {#e1, e2, e3, e4#}"
  shows "findTemporalPatterns es3 =
           [\<lparr>pattern = ''recurring every 24 hours'', frequency = 24, confidence = 60,
             recentHits = [date e1, date e2, date e3]\<rparr>]
       \<and> findTemporalPatterns es4 =
           [\<lparr>pattern = ''recurring every 26 hours'', frequency = 26, confidence = 80,
             recentHits = [date e1, date e2, date e3, date e4]\<rparr>]"
  using assms C1_three [of e1 e2 e3 es3] C1_four [of e1 e2 e3 e4 es4]
  by (simp add: hourMs_def)

text \<open>The theorem at four concrete events, given out of order.\<close>

theorem C1_patterns_amended_witness:
  "findTemporalPatterns
     [mkEvent ''3'' (48 * hourMs) None None ''X'' [''a'', ''b'', ''c''],
      mkEvent ''1'' 0 None None ''X'' [''a'', ''b''],
      mkEvent ''2'' (24 * hourMs) None None ''X'' [''a'', ''b'']] =
     [\<lparr>pattern = ''recurring every 24 hours'', frequency = 24, confidence = 60,
       recentHits = [0, 24 * hourMs, 48 * hourMs]\<rparr>]
   \<and> findTemporalPatterns
     [mkEvent ''4'' (78 * hourMs) None None ''X'' [''a'', ''b''],
      mkEvent ''3'' (48 * hourMs) None None ''X'' [''a'', ''b'', ''c''],
      mkEvent ''1'' 0 None None ''X'' [''a'', ''b''],
      mkEvent ''2'' (24 * hourMs) None None ''X'' [''a'', ''b'']] =
     [\<lparr>pattern = ''recurring every 26 hours'', frequency = 26, confidence = 80,
       recentHits = [0, 24 * hourMs, 48 * hourMs, 78 * hourMs]\<rparr>]"
  using C1_patterns_amended
    [of "mkEvent ''1'' 0 None None ''X'' [''a'', ''b'']"
        "mkEvent ''2'' (24 * hourMs) None None ''X'' [''a'', ''b'']"
        "mkEvent ''3'' (48 * hourMs) None None ''X'' [''a'', ''b'', ''c'']"
        "mkEvent ''4'' (78 * hourMs) None None ''X'' [''a'', ''b'']"
        "[mkEvent ''3'' (48 * hourMs) None None ''X'' [''a'', ''b'', ''c''],
          mkEvent ''1'' 0 None None ''X'' [''a'', ''b''],
          mkEvent ''2'' (24 * hourMs) None None ''X'' [''a'', ''b'']]"
        "[mkEvent ''4'' (78 * hourMs) None None ''X'' [''a'', ''b''],
          mkEvent ''3'' (48 * hourMs) None None ''X'' [''a'', ''b'', ''c''],
          mkEvent ''1'' 0 None None ''X'' [''a'', ''b''],
          mkEvent ''2'' (24 * hourMs) None None ''X'' [''a'', ''b'']]"]
  by (simp add: mkEvent_def hourMs_def)

text \<open>
  C1 as stated says that the fourth event leaves no pattern for the group. On these four
  events, which are the whole input, the pass returns a pattern.
\<close>

theorem C1_fourth_event_counterexample:
  "findTemporalPatterns
     [mkEvent ''1'' 0 None None ''X'' [''a'', ''b''],
      mkEvent ''2'' (24 * hourMs) None None ''X'' [''a'', ''b''],
      mkEvent ''3'' (48 * hourMs) None None ''X'' [''a'', ''b''],
      mkEvent ''4'' (78 * hourMs) None None ''X'' [''a'', ''b'']] \<noteq> []"
  by (simp add: findTemporalPatterns_def mkEvent_def hourMs_def sortByDate_def patternKey_def
      objectEntries_def arrayIndex_colon analyzeGroup_def fl_eval not_deviates)

subsection \<open>C2: a coordinate that is exactly zero\<close>

text \<open>
  C2 says that an event whose latitude is exactly 0 carries coordinates. The code tests the
  coordinates for truthiness, so it takes a zero for a missing value: two events at latitude
  0 and longitude 10, at distance 0 from each other, give no spatial result and no cluster,
  while the same two events at latitude 1 give a spatial result of score 100 and a cluster
  of two.
\<close>

theorem C2_zero_coordinate_is_dropped:
  "haversineDistance (the (lat zeroLatA)) (the (lon zeroLatA))
                     (the (lat zeroLatB)) (the (lon zeroLatB)) = 0
   \<and> findSpatialCorrelations [zeroLatA, zeroLatB] = []
   \<and> findGeographicClusters [zeroLatA, zeroLatB] = []
   \<and> map score (findSpatialCorrelations
        [zeroLatA\<lparr>lat := Some 1\<rparr>, zeroLatB\<lparr>lat := Some 1\<rparr>]) = [100]
   \<and> map eventCount (findGeographicClusters
        [zeroLatA\<lparr>lat := Some 1\<rparr>, zeroLatB\<lparr>lat := Some 1\<rparr>]) = [2]"
  by (simp add: zeroLatA_def zeroLatB_def mkEvent_def haversine_same_point
      findSpatialCorrelations_def findGeographicClusters_def spatialPair_def sortByScore_def
      absorb_def seedCluster_def SPATIAL_THRESHOLD_KM_def js_round_def)

subsection \<open>C3: the temporal correlator\<close>

text \<open>
  C3 says that a pair of events gets a temporal result exactly when the two are within
  the window and share at least two keywords. The code counts the entries of the first
  event's keyword list that occur in the second event's list, so a keyword repeated in
  the first list counts each time. The events \<open>dupA\<close> and \<open>dupB\<close> carry the same timestamp
  and share the single keyword \<open>k\<close>, which \<open>dupA\<close> lists twice: the input \<open>dupA\<close>, \<open>dupB\<close>
  yields a result, of score 100, and the same pair in the other order yields none.
\<close>

theorem C3_repeated_keyword_is_counted:
  "card (set (keywords_ev dupA) \<inter> set (keywords_ev dupB)) = 1
   \<and> map id_res (findTemporalCorrelations [dupA, dupB]) = [''temp_a_b'']
   \<and> map score (findTemporalCorrelations [dupA, dupB]) = [100]
   \<and> findTemporalCorrelations [dupB, dupA] = []"
  by (simp add: dupA_def dupB_def mkEvent_def findTemporalCorrelations_def temporalPair_def
      sortByScore_def sharedKeywords_def CORRELATION_WINDOW_def fl_eval js_round_def Let_def)

subsection \<open>C4: the cascade detector\<close>

text \<open>
  C4 says that a pair of events of different regions gets a cascade result only when the
  two share at least two keywords. The code counts the entries of the earlier event's
  keyword list that occur in the later event's list, so a keyword repeated in the earlier
  list counts each time. The events \<open>dupA\<close> and \<open>dupC\<close> are twelve hours apart, in different
  regions, and share the single keyword \<open>k\<close>, which the earlier one lists twice: the pass
  yields a result, of score 95. For \<open>dupD\<close> and \<open>dupE\<close>, where the later event lists \<open>k\<close>
  twice, it yields none.
\<close>

theorem C4_repeated_keyword_is_counted:
  "card (set (keywords_ev dupA) \<inter> set (keywords_ev dupC)) = 1
   \<and> region dupA \<noteq> region dupC
   \<and> map id_res (detectCascades [dupA, dupC]) = [''cascade_a_c'']
   \<and> map score (detectCascades [dupA, dupC]) = [95]
   \<and> card (set (keywords_ev dupD) \<inter> set (keywords_ev dupE)) = 1
   \<and> detectCascades [dupD, dupE] = []"
  by (simp add: dupA_def dupC_def dupD_def dupE_def mkEvent_def hourMs_def detectCascades_def
      sortByDate_def cascadePair_def sortByScore_def sharedKeywords_def fl_eval round64_quarters
      js_round_def Let_def)

subsection \<open>C5: the thematic correlator\<close>

text \<open>
  C5 says that a keyword gets a thematic result exactly when at least three distinct
  events reference it. The code counts the references: for the single event \<open>tripleK\<close>, which
  lists the keyword \<open>k\<close> three times, the pass returns a result for \<open>k\<close>, of score 45, whose
  events are three times the id of that event and whose description speaks of 3 events.
  And for three distinct events that all carry the keyword \<open>constructor\<close>, where a result
  is due, the pass throws.
\<close>

theorem C5_references_counted_and_prototype_keyword:
  "length [tripleK] = 1
   \<and> findThematicCorrelations [tripleK] = Inr (projr (findThematicCorrelations [tripleK]))
   \<and> map events (projr (findThematicCorrelations [tripleK])) = [[''t'', ''t'', ''t'']]
   \<and> map score (projr (findThematicCorrelations [tripleK])) = [45]
   \<and> map description (projr (findThematicCorrelations [tripleK]))
       = [''3 events share '' @ [CHR 0x22] @ ''k'' @ [CHR 0x22] @ '' theme over 0 days'']
   \<and> length ctorEvents = 3
   \<and> distinct (map id_ev ctorEvents)
   \<and> findThematicCorrelations ctorEvents = Inl TypeError"
  by (simp add: tripleK_def ctorEvents_def mkEvent_def findThematicCorrelations_def
      objectPrototypeKeys_def objectEntries_def arrayIndex_def isDigit_def thematicEntry_def
      sortByScore_def fl_eval js_round_def showInt_def showNat_3 [unfolded numeral_3_eq_3]
      showNat_0 Let_def)

subsection \<open>C6: the projection to alert records\<close>

lemma signal_origin:
  assumes "s \<in> set (correlationsToThreatSignals results)"
  shows "\<exists>r \<in> set (temporal results) \<union> set (spatial results) \<union> set (cascades results).
           significance r = High \<and> s = toSignal r"
proof -
  from assms have "s \<in> toSignal ` set (filter (\<lambda>r. significance r = High) (temporal results) @ filter (\<lambda>r. significance r = High) (spatial results)
      @ filter (\<lambda>r. significance r = High) (cascades results))"
    by (auto simp: correlationsToThreatSignals_def dest!: in_set_takeD)
  then show ?thesis by auto
qed

text \<open>
  C6. For every result bundle the projection returns at most five records. They are the
  first five, by position, of the high-significance temporal results followed by the
  high-significance spatial results followed by the high-significance cascades. Every
  record has severity \<open>medium\<close> and is the image of one of those results. The thematic
  results, the patterns and the clusters of the bundle are not read, and on a bundle that
  the engine built no record has the thematic type.
\<close>

theorem C6_signal_projection:
  "length (correlationsToThreatSignals results) \<le> 5
   \<and> correlationsToThreatSignals results =
       take 5 (map toSignal (filter (\<lambda>r. significance r = High) (temporal results))
               @ map toSignal (filter (\<lambda>r. significance r = High) (spatial results))
               @ map toSignal (filter (\<lambda>r. significance r = High) (cascades results)))
   \<and> (\<forall>s \<in> set (correlationsToThreatSignals results).
         severity s = ''medium''
         \<and> (\<exists>r \<in> set (temporal results) \<union> set (spatial results) \<union> set (cascades results).
               significance r = High \<and> s = toSignal r))
   \<and> correlationsToThreatSignals (results\<lparr>thematic := th, patterns := ps, clusters := cs\<rparr>)
       = correlationsToThreatSignals results
   \<and> (\<forall>b. runCorrelationEngine es = Inr b \<longrightarrow>
         (\<forall>s \<in> set (correlationsToThreatSignals b).
            type_sig s \<in> {''correlation_temporal'', ''correlation_spatial'', ''correlation_cascade''}))"
proof (intro conjI ballI allI impI)
  show "length (correlationsToThreatSignals results) \<le> 5"
    by (simp add: correlationsToThreatSignals_def)
  show "correlationsToThreatSignals results =
       take 5 (map toSignal (filter (\<lambda>r. significance r = High) (temporal results))
               @ map toSignal (filter (\<lambda>r. significance r = High) (spatial results))
               @ map toSignal (filter (\<lambda>r. significance r = High) (cascades results)))"
    by (simp add: correlationsToThreatSignals_def take_map)
  show "correlationsToThreatSignals (results\<lparr>thematic := th, patterns := ps, clusters := cs\<rparr>)
       = correlationsToThreatSignals results"
    by (simp add: correlationsToThreatSignals_def)
next
  fix s assume s: "s \<in> set (correlationsToThreatSignals results)"
  from signal_origin [OF s]
  show "\<exists>r \<in> set (temporal results) \<union> set (spatial results) \<union> set (cascades results).
               significance r = High \<and> s = toSignal r" .
  then show "severity s = ''medium''" by (auto simp: toSignal_def)
next
  fix b s assume b: "runCorrelationEngine es = Inr b" and s: "s \<in> set (correlationsToThreatSignals b)"
  from b have f: "temporal b = findTemporalCorrelations es" "spatial b = findSpatialCorrelations es"
      "cascades b = detectCascades es"
    by (auto simp: runCorrelationEngine_def split: sum.splits)
  from signal_origin [OF s] obtain r where
    r: "r \<in> set (temporal b) \<union> set (spatial b) \<union> set (cascades b)" and sr: "s = toSignal r"
    by blast
  from r f have "type_res r \<in> {Temporal, Spatial, Cascade}"
    using temporal_type spatial_type cascade_type by auto
  then show "type_sig s \<in> {''correlation_temporal'', ''correlation_spatial'', ''correlation_cascade''}"
    by (auto simp: sr toSignal_def)
qed

text \<open>The theorem on the bundle that the engine builds from two events one hour apart.\<close>

theorem C6_signal_projection_witness:
  "correlationsToThreatSignals (projr (runCorrelationEngine twinEvents)) \<noteq> []
   \<and> length (correlationsToThreatSignals (projr (runCorrelationEngine twinEvents))) \<le> 5
   \<and> severity (hd (correlationsToThreatSignals (projr (runCorrelationEngine twinEvents)))) = ''medium''
   \<and> type_sig (hd (correlationsToThreatSignals (projr (runCorrelationEngine twinEvents))))
       \<in> {''correlation_temporal'', ''correlation_spatial'', ''correlation_cascade''}"
proof -
  define b where "b = projr (runCorrelationEngine twinEvents)"
  have run: "runCorrelationEngine twinEvents = Inr b"
    using twin_thematic by (auto simp: b_def runCorrelationEngine_def split: sum.splits)
  then have "temporal b = findTemporalCorrelations twinEvents"
    by (auto simp: runCorrelationEngine_def split: sum.splits)
  then have "filter (\<lambda>r. significance r = High) (temporal b) \<noteq> []"
    using twin_temporal by (cases "findTemporalCorrelations twinEvents") auto
  then have ne: "correlationsToThreatSignals b \<noteq> []"
    by (simp add: correlationsToThreatSignals_def)
  then have "hd (correlationsToThreatSignals b) \<in> set (correlationsToThreatSignals b)" by simp
  with C6_signal_projection [of b "[]" "[]" "[]" twinEvents] run ne
  show ?thesis unfolding b_def [symmetric] by blast
qed

subsection \<open>C7: scores and confidences lie between 0 and 100\<close>

text \<open>
  C7. For every list of events, every score of every result of the temporal, spatial,
  thematic and cascade passes, and every confidence of the pattern pass, is in the interval
  from 0 to 100. The code only cuts at 100; the lower bound holds because a result is
  pushed only inside the window, where the rounded expression is not negative. The thematic
  pass has results only when it returns.
\<close>

theorem C7_scores_in_range:
  "(\<forall>r \<in> set (findTemporalCorrelations es). 0 \<le> score r \<and> score r \<le> 100)
   \<and> (\<forall>r \<in> set (findSpatialCorrelations es). 0 \<le> score r \<and> score r \<le> 100)
   \<and> (\<forall>rs. findThematicCorrelations es = Inr rs \<longrightarrow>
          (\<forall>r \<in> set rs. 0 \<le> score r \<and> score r \<le> 100))
   \<and> (\<forall>r \<in> set (detectCascades es). 0 \<le> score r \<and> score r \<le> 100)
   \<and> (\<forall>p \<in> set (findTemporalPatterns es). 0 \<le> confidence p \<and> confidence p \<le> 100)"
proof (intro conjI ballI allI impI)
  fix r assume "r \<in> set (findTemporalCorrelations es)"
  then obtain x y where "r \<in> set (temporalPair x y)"
    by (auto simp: findTemporalCorrelations_def sortByScore_def dest: set_forPairs)
  then show "0 \<le> score r" "score r \<le> 100" using temporalPair_score by blast+
next
  fix r assume "r \<in> set (findSpatialCorrelations es)"
  then obtain x y where "r \<in> set (spatialPair x y)"
    by (auto simp: findSpatialCorrelations_def sortByScore_def dest: set_forPairs)
  then show "0 \<le> score r" "score r \<le> 100" using spatialPair_score by blast+
next
  fix rs r assume "findThematicCorrelations es = Inr rs" "r \<in> set rs"
  then obtain entry where "r \<in> set (thematicEntry es entry)"
    by (auto simp: findThematicCorrelations_def sortByScore_def split: sum.splits)
  then show "0 \<le> score r" "score r \<le> 100" using thematicEntry_score by blast+
next
  fix r assume "r \<in> set (detectCascades es)"
  then obtain x y where "r \<in> set (cascadePair x y)"
    by (auto simp: detectCascades_def sortByScore_def dest: set_forPairs)
  then show "0 \<le> score r" "score r \<le> 100" using cascadePair_score by blast+
next
  fix p assume "p \<in> set (findTemporalPatterns es)"
  then obtain dates where "p \<in> set (analyzeGroup dates)"
    by (auto simp: findTemporalPatterns_def)
  then show "0 \<le> confidence p" "confidence p \<le> 100" using analyzeGroup_confidence by blast+
qed

text \<open>The theorem on three events for which every pass has results.\<close>

theorem C7_scores_in_range_witness:
  "findTemporalCorrelations dailyEvents \<noteq> []
   \<and> list_all (\<lambda>r. 0 \<le> score r \<and> score r \<le> 100) (findTemporalCorrelations dailyEvents)
   \<and> findSpatialCorrelations dailyEvents \<noteq> []
   \<and> list_all (\<lambda>r. 0 \<le> score r \<and> score r \<le> 100) (findSpatialCorrelations dailyEvents)
   \<and> projr (findThematicCorrelations dailyEvents) \<noteq> []
   \<and> list_all (\<lambda>r. 0 \<le> score r \<and> score r \<le> 100)
        (projr (findThematicCorrelations dailyEvents))
   \<and> detectCascades dailyEvents \<noteq> []
   \<and> list_all (\<lambda>r. 0 \<le> score r \<and> score r \<le> 100) (detectCascades dailyEvents)
   \<and> findTemporalPatterns dailyEvents \<noteq> []
   \<and> list_all (\<lambda>p. 0 \<le> confidence p \<and> confidence p \<le> 100) (findTemporalPatterns dailyEvents)"
proof -
  have th: "findThematicCorrelations dailyEvents = Inr (projr (findThematicCorrelations dailyEvents))"
    using daily_thematic by simp
  have ne: "findTemporalCorrelations dailyEvents \<noteq> []" "findSpatialCorrelations dailyEvents \<noteq> []"
    "projr (findThematicCorrelations dailyEvents) \<noteq> []" "detectCascades dailyEvents \<noteq> []"
    "findTemporalPatterns dailyEvents \<noteq> []"
    using daily_temporal daily_spatial daily_thematic daily_cascades daily_patterns by auto
  show ?thesis
    using C7_scores_in_range [of dailyEvents] th ne by (simp add: list_all_iff)
qed

subsection \<open>C8: three events near each other and one far away\<close>

text \<open>
  C8. Let \<open>a\<close>, \<open>b\<close>, \<open>c\<close>, \<open>d\<close> be four events with unique ids that all carry non-zero
  coordinates, \<open>a\<close>, \<open>b\<close>, \<open>c\<close> pairwise within 50 km and \<open>d\<close> more than 500 km from each of
  them. For the input \<open>a\<close>, \<open>b\<close>, \<open>c\<close> with \<open>d\<close> at any of the four positions (and so, as
  \<open>a\<close>, \<open>b\<close>, \<open>c\<close> are interchangeable, for every order of the four),
  \<open>findGeographicClusters\<close> returns exactly one cluster. It has event count 3, its center is
  the first of the three near events, it absorbs the other two and not \<open>d\<close>, and \<open>d\<close> absorbs
  nothing. For every input, an emitted cluster has an event count of at least 2.
\<close>

theorem C8_three_near_one_far:
  assumes "\<forall>e \<in> {a, b, c, d}. truthy (lat e) \<and> truthy (lon e)"
    and "distinct (map id_ev [a, b, c, d])"
    and "distanceKm a b \<le> 50" "distanceKm a c \<le> 50" "distanceKm b c \<le> 50"
    and "500 < distanceKm a d" "500 < distanceKm b d" "500 < distanceKm c d"
    and "k \<le> 3" "es = take k [a, b, c] @ d # drop k [a, b, c]"
  shows "(\<exists>cl. findGeographicClusters es = [cl]
           \<and> eventCount cl = 3
           \<and> centerLat cl = the (lat a) \<and> centerLon cl = the (lon a)
           \<and> radiusKm cl = 50
           \<and> set (categories cl) = category ` {a, b, c}
           \<and> eventCount cl = 1 + length (members a es)
           \<and> members a es = [b, c])
       \<and> members d es = []
       \<and> (\<forall>es'. \<forall>c' \<in> set (findGeographicClusters es'). 2 \<le> eventCount c')"
proof -
  from near_far_clusters [OF assms]
  have run: "findGeographicClusters es = [clusterOf a es]"
    and ma: "members a es = [b, c]" and md: "members d es = []" by simp_all
  have "Max (insert 50 (distanceKm a ` set [b, c])) = 50"
    using assms(3,4) by (simp add: max_def)
  then have rad: "radiusKm (clusterOf a es) = 50" by (simp add: clusterOf_fields ma)
  have cats: "set (categories (clusterOf a es)) = category ` {a, b, c}"
    by (simp add: clusterOf_fields ma)
  have two: "\<forall>es'. \<forall>c' \<in> set (findGeographicClusters es'). 2 \<le> eventCount c'"
    using clusters_at_least_two by blast
  show ?thesis
    using run rad cats ma md two by (simp add: clusterOf_fields)
qed

text \<open>The theorem on three events at the north pole and one at the south pole, the
  far one second in the input.\<close>

theorem C8_three_near_one_far_witness:
  "map eventCount (findGeographicClusters polarEvents) = [3]
   \<and> map radiusKm (findGeographicClusters polarEvents) = [50]
   \<and> map centerLat (findGeographicClusters polarEvents) = [90]
   \<and> members polarA polarEvents = [polarB, polarC]
   \<and> members polarD polarEvents = []"
proof -
  have 1: "\<forall>e \<in> {polarA, polarB, polarC, polarD}. truthy (lat e) \<and> truthy (lon e)"
    by (simp add: polarA_def polarB_def polarC_def polarD_def mkEvent_def)
  have 2: "distinct (map id_ev [polarA, polarB, polarC, polarD])"
    by (simp add: polarA_def polarB_def polarC_def polarD_def mkEvent_def)
  have 3: "polarEvents = take 1 [polarA, polarB, polarC] @ polarD # drop 1 [polarA, polarB, polarC]"
    by (simp add: polarEvents_def)
  have 4: "distanceKm polarA polarB \<le> 50" "distanceKm polarA polarC \<le> 50"
    "distanceKm polarB polarC \<le> 50"
    by (simp_all add: polar_near)
  have 5: "500 < distanceKm polarA polarD" "500 < distanceKm polarB polarD"
    "500 < distanceKm polarC polarD"
    by (simp_all add: polar_far polar_far_500)
  have 6: "(1::nat) \<le> 3" by simp
  from C8_three_near_one_far [OF 1 2 4 5 6 3]
  obtain cl where "findGeographicClusters polarEvents = [cl]" "eventCount cl = 3"
    "centerLat cl = the (lat polarA)" "radiusKm cl = 50"
    "members polarA polarEvents = [polarB, polarC]" "members polarD polarEvents = []"
    by blast
  then show ?thesis by (simp add: polarA_def mkEvent_def)
qed

subsection \<open>C9: the radius of a cluster\<close>

text \<open>
  C9. Every cluster that \<open>findGeographicClusters\<close> returns is built around a seed of the
  input that has coordinates. Its \<open>radiusKm\<close> is the maximum of 50 and the distances from
  the seed to the events that the seed absorbs; so it is at least 50, and it is exactly 50
  when every absorbed event is closer than 50 km to the seed.
\<close>

theorem C9_cluster_radius:
  "\<forall>c \<in> set (findGeographicClusters es).
     50 \<le> radiusKm c
     \<and> (\<exists>seed \<in> set es.
           truthy (lat seed) \<and> truthy (lon seed)
         \<and> centerLat c = the (lat seed) \<and> centerLon c = the (lon seed)
         \<and> eventCount c = 1 + length (members seed es)
         \<and> radiusKm c = Max (insert 50 (distanceKm seed ` set (members seed es)))
         \<and> ((\<forall>m \<in> set (members seed es). distanceKm seed m < 50) \<longrightarrow> radiusKm c = 50))"
proof
  fix c assume "c \<in> set (findGeographicClusters es)"
  then obtain seed where seed: "seed \<in> set es" "truthy (lat seed)" "truthy (lon seed)"
    and c: "c = clusterOf seed es"
    using findGeographicClusters_seed by blast
  let ?D = "insert 50 (distanceKm seed ` set (members seed es))"
  have r: "radiusKm c = Max ?D" by (simp add: c clusterOf_fields)
  have fin: "finite ?D" by simp
  then have ge: "50 \<le> Max ?D" by (intro Max_ge) simp_all
  have small: "Max ?D = 50" if "\<forall>m \<in> set (members seed es). distanceKm seed m < 50"
  proof (rule antisym)
    show "Max ?D \<le> 50" using that fin by (subst Max_le_iff) (auto intro: less_imp_le)
    show "50 \<le> Max ?D" by (rule ge)
  qed
  show "50 \<le> radiusKm c
     \<and> (\<exists>seed \<in> set es.
           truthy (lat seed) \<and> truthy (lon seed)
         \<and> centerLat c = the (lat seed) \<and> centerLon c = the (lon seed)
         \<and> eventCount c = 1 + length (members seed es)
         \<and> radiusKm c = Max (insert 50 (distanceKm seed ` set (members seed es)))
         \<and> ((\<forall>m \<in> set (members seed es). distanceKm seed m < 50) \<longrightarrow> radiusKm c = 50))"
  proof (intro conjI bexI [of _ seed] impI)
    show "50 \<le> radiusKm c" using r ge by simp
    show "radiusKm c = Max ?D" by (rule r)
    show "radiusKm c = 50" if "\<forall>m \<in> set (members seed es). distanceKm seed m < 50"
      using r small [OF that] by simp
  qed (simp_all add: seed c clusterOf_fields)
qed

text \<open>The theorem on the same four events: the one cluster has a radius of at least 50
  and a seed in the input.\<close>

theorem C9_cluster_radius_witness:
  "findGeographicClusters polarEvents \<noteq> []
   \<and> list_all (\<lambda>c. 50 \<le> radiusKm c) (findGeographicClusters polarEvents)
   \<and> list_all (\<lambda>c. \<exists>seed \<in> set polarEvents.
                  centerLat c = the (lat seed) \<and> centerLon c = the (lon seed)
                \<and> radiusKm c = Max (insert 50 (distanceKm seed ` set (members seed polarEvents))))
        (findGeographicClusters polarEvents)"
proof -
  have "findGeographicClusters polarEvents \<noteq> []" using polar_clusters by simp
  moreover from C9_cluster_radius [of polarEvents]
  have "list_all (\<lambda>c. 50 \<le> radiusKm c) (findGeographicClusters polarEvents)"
    by (simp add: list_all_iff)
  moreover from C9_cluster_radius [of polarEvents]
  have "list_all (\<lambda>c. \<exists>seed \<in> set polarEvents.
                  centerLat c = the (lat seed) \<and> centerLon c = the (lon seed)
                \<and> radiusKm c = Max (insert 50 (distanceKm seed ` set (members seed polarEvents))))
        (findGeographicClusters polarEvents)"
    unfolding list_all_iff by blast
  ultimately show ?thesis by simp
qed

subsection \<open>C10: a group of identical timestamps\<close>

lemma analyzeGroup_replicate:
  assumes "3 \<le> n"
  shows "analyzeGroup (replicate n t) =
           [\<lparr>pattern = ''recurring every 0 hours'', frequency = 0,
             confidence = min 100 (js_round (real n * 20)),
             recentHits = replicate (min 5 n) t\<rparr>]"
proof -
  have cons: "list_all (\<lambda>iv. \<not> deviates (msToHours iv) 0) (replicate (n - 1) 0)"
    by (simp add: list_all_iff deviates_def fl_eval)
  have avg: "msToHours (fdiv 0 (real (n - 1))) = 0" by (simp add: fl_eval)
  have dr: "drop (n - 5) (replicate n t) = replicate (min 5 n) t"
    by (simp add: min_def)
  have r0: "showInt (js_round 0) = ''0''" by (simp add: js_round_def showInt_def showNat_0)
  show ?thesis
    unfolding analyzeGroup_def intervals_replicate length_replicate fold_fadd_zeros Let_def avg
    using assms cons by (simp add: dr r0)
qed

lemma same_date_replicate:
  assumes "\<forall>e \<in> set xs. date e = t"
  shows "map date xs = replicate (length xs) t"
  using assms by (induction xs) auto

text \<open>
  C10. If at least three events have the signature \<open>key\<close> and all events of that
  signature carry the same timestamp \<open>t\<close>, the group of \<open>key\<close> yields a pattern, which is
  in the list that \<open>findTemporalPatterns\<close> returns: its frequency is 0, its confidence the
  clamp of \<open>round (count * 20)\<close>, its recent hits the last five timestamps. The mean
  interval is 0, every deviation is \<^verbatim>\<open>0 / 0\<close> and no comparison with \<^verbatim>\<open>0.2\<close> succeeds.
\<close>

theorem C10_identical_timestamps:
  assumes "3 \<le> length (filter (\<lambda>e. patternKey e = key) es)"
    and "\<forall>e \<in> set es. patternKey e = key \<longrightarrow> date e = t"
  shows "\<exists>p \<in> set (findTemporalPatterns es).
           analyzeGroup (lookupList (groupDates (sortByDate es) []) key) = [p]
         \<and> frequency p = 0
         \<and> confidence p = clamp0_100 (js_round (real (length (filter (\<lambda>e. patternKey e = key) es)) * 20))
         \<and> recentHits p = replicate (min 5 (length (filter (\<lambda>e. patternKey e = key) es))) t"
proof -
  define n where "n = length (filter (\<lambda>e. patternKey e = key) es)"
  define grp where "grp = filter (\<lambda>e. patternKey e = key) (sortByDate es)"
  define G where "G = groupDates (sortByDate es) []"
  define p where "p = \<lparr>pattern = ''recurring every 0 hours'', frequency = 0,
             confidence = min 100 (js_round (real n * 20)),
             recentHits = replicate (min 5 n) t\<rparr>"
  have "mset grp = filter_mset (\<lambda>e. patternKey e = key) (mset es)"
    by (simp add: grp_def sortByDate_def)
  then have "mset grp = mset (filter (\<lambda>e. patternKey e = key) es)" by simp
  then have len: "length grp = n" unfolding n_def by (rule mset_eq_length)
  have "\<forall>e \<in> set grp. date e = t" using assms(2) by (auto simp: grp_def sortByDate_def)
  then have dates: "map date grp = replicate n t" using same_date_replicate len by metis
  have look: "lookupList G key = replicate n t"
  proof -
    have "lookupList ([] :: (string \<times> int list) list) key = []" by (simp add: lookupList_def)
    then show ?thesis
      unfolding G_def groupDates_lookup using dates by (simp add: grp_def)
  qed
  have n3: "3 \<le> n" using assms(1) by (simp add: n_def)
  then have "grp \<noteq> []" using len by auto
  then have "key \<in> patternKey ` set (sortByDate es)" by (auto simp: grp_def filter_empty_conv)
  then have "key \<in> fst ` set G" by (simp add: G_def groupDates_keys)
  moreover have "distinct (map fst G)" by (simp add: G_def groupDates_distinct)
  ultimately have "(key, replicate n t) \<in> set G" using lookupList_mem look by metis
  then have mem: "(key, replicate n t) \<in> set (objectEntries G)" by (simp add: set_objectEntries)
  have an: "analyzeGroup (replicate n t) = [p]" using n3 by (simp add: analyzeGroup_replicate p_def)
  have "p \<in> set (findTemporalPatterns es)"
    unfolding findTemporalPatterns_def G_def [symmetric] using mem an by force
  moreover have "0 \<le> js_round (real n * 20)" by (simp add: js_round_def)
  then have "confidence p = clamp0_100 (js_round (real n * 20))"
    by (simp add: p_def clamp0_100_def)
  ultimately show ?thesis using an look
    by (intro bexI [of _ p]) (simp_all add: G_def n_def [symmetric], simp_all add: p_def)
qed

text \<open>The theorem on three events of signature \<open>X:a,b\<close> at hour 7.\<close>

theorem C10_identical_timestamps_witness:
  "\<exists>p \<in> set (findTemporalPatterns sameTimeEvents).
      analyzeGroup (lookupList (groupDates (sortByDate sameTimeEvents) []) ''X:a,b'') = [p]
    \<and> frequency p = 0 \<and> confidence p = 60
    \<and> recentHits p = [7 * hourMs, 7 * hourMs, 7 * hourMs]"
  using C10_identical_timestamps [of "''X:a,b''" sameTimeEvents "7 * hourMs"]
  by (simp add: sameTimeEvents_def mkEvent_def patternKey_def clamp0_100_def js_round_def
      numeral_3_eq_3)

end
